theory Spec2Isabelle
  imports Main
begin

section \<open>Python values used by \<^verbatim>\<open>dsb3/pipeline.py\<close>\<close>

text \<open>
  Exceptions are values. Each constructor is a Python exception class that the modelled
  code can raise; the string is the message (\<^verbatim>\<open>str(e)\<close>).
\<close>

datatype py_error =
    TypeError string
  | FileNotFoundError string
  | IsADirectoryError string
  | KeyError string
  | IndexError string
  | ValueError string
  | StopIteration
  | ImportError string
  | JSONDecodeError string
  | UnboundLocalError string
  | AttributeError string
  | Unmodelled string
  | OtherError string string

subsection \<open>\<^verbatim>\<open>str(n)\<close> for an integer\<close>

definition digit_char :: "nat \<Rightarrow> char" where
  "digit_char d = ''0123456789'' ! d"

function str_nat :: "nat \<Rightarrow> string" where
  "str_nat n = (if n < 10 then [digit_char n] else str_nat (n div 10) @ [digit_char (n mod 10)])"
  by pat_completeness auto
termination
  by (relation "measure (\<lambda>n. n)") auto

declare str_nat.simps [simp del]

definition str_int :: "int \<Rightarrow> string" where
  "str_int i = (if i < 0 then CHR ''-'' # str_nat (nat (- i)) else str_nat (nat i))"

text \<open>\<^verbatim>\<open>str(xs)\<close> for a list of integers: \<^verbatim>\<open>[3, 1, 0]\<close>.\<close>

fun join_comma :: "string list \<Rightarrow> string" where
  "join_comma [] = []"
| "join_comma [x] = x"
| "join_comma (x # y # ys) = x @ '', '' @ join_comma (y # ys)"

definition str_int_list :: "int list \<Rightarrow> string" where
  "str_int_list xs = ''['' @ join_comma (map str_int xs) @ '']''"

section \<open>Pipeline state\<close>

text \<open>
  The run registry \<^verbatim>\<open>avail_runs\<close> is an \<^verbatim>\<open>OrderedDict\<close> from the run
  identifier as a string to the pair \<^verbatim>\<open>[timestamp, description]\<close>: an association
  list in insertion order.
\<close>

type_synonym registry = "(string \<times> (string \<times> string)) list"

text \<open>
  The module's global variables that the modelled functions read or assign. A global that
  starts as \<^verbatim>\<open>None\<close> is an option. The names with two leading underscores
  (\<^verbatim>\<open>__run\<close>, \<^verbatim>\<open>__init_run\<close>, \<^verbatim>\<open>__step\<close>, \<^verbatim>\<open>__step_name\<close>,
  \<^verbatim>\<open>__step_dir_suffix\<close>) are written with the prefix \<open>uu_\<close>, a function's leading
  underscore with the prefix \<open>u_\<close>.
\<close>

record pstate =
  write_basedir :: "string option"
  dataset_name :: "string option"
  avail_runs :: registry
  patients :: "string list option"
  n_patients :: "nat option"
  uu_step_name :: "string option"
  uu_step :: "string option"
  uu_step_dir_suffix :: string
  uu_run :: int
  uu_init_run :: int

text \<open>The module's state right after import (lines 35 to 102 of the source).\<close>

definition module_init :: pstate where
  "module_init = \<lparr> write_basedir = None, dataset_name = None, avail_runs = [],
     patients = None, n_patients = None, uu_step_name = None, uu_step = None,
     uu_step_dir_suffix = [], uu_run = 0, uu_init_run = - 1 \<rparr>"

section \<open>Path resolver\<close>

text \<open>
  \<^verbatim>\<open>str + None\<close> raises \<^verbatim>\<open>TypeError\<close>; the message is the interpreter's.
\<close>

definition concat_none :: py_error where
  "concat_none = TypeError ''can only concatenate str (not \"NoneType\") to str''"

definition get_write_dir :: "pstate \<Rightarrow> int option \<Rightarrow> py_error + string" where
  "get_write_dir s run =
     (let r = (case run of None \<Rightarrow> uu_run s | Some r' \<Rightarrow> r') in
      case write_basedir s of
        None \<Rightarrow> Inl (TypeError ''unsupported operand type(s) for +'')
      | Some b \<Rightarrow>
          (case dataset_name s of
             None \<Rightarrow> Inl concat_none
           | Some d \<Rightarrow> Inr (b @ d @ ''_'' @ str_int r @ ''/'')))"

definition get_step_dir :: "pstate \<Rightarrow> string option \<Rightarrow> int option \<Rightarrow> py_error + string" where
  "get_step_dir s step_name run =
     (let nm = (case step_name of None \<Rightarrow> uu_step_name s | Some n \<Rightarrow> Some n) in
      case get_write_dir s run of
        Inl e \<Rightarrow> Inl e
      | Inr wd \<Rightarrow>
          (case nm of
             None \<Rightarrow> Inl concat_none
           | Some n \<Rightarrow> Inr (wd @ n @ uu_step_dir_suffix s @ ''/'')))"

text \<open>
  The directory of a step as a function of the triple (run identifier, step name, suffix):
  \<^verbatim>\<open>get_step_dir(step_name, run)\<close> called while \<^verbatim>\<open>__step_dir_suffix\<close> holds the suffix.
\<close>

definition step_dir_of :: "pstate \<Rightarrow> int \<Rightarrow> string \<Rightarrow> string \<Rightarrow> py_error + string" where
  "step_dir_of s run step_name suffix =
     get_step_dir (s\<lparr>uu_step_dir_suffix := suffix\<rparr>) (Some step_name) (Some run)"

section \<open>File system and structured store\<close>

text \<open>
  JSON values as the structured store holds them. A structured record and a parameter set
  are \<^verbatim>\<open>OrderedDict\<close>s from strings to JSON values: association lists in insertion order.
\<close>

datatype jval = JNull | JBool bool | JNum int | JStr string | JArr "jval list"
  | JObj "(string \<times> jval) list"

type_synonym jdict = "(string \<times> jval) list"

text \<open>
  What a path holds. The file system is keyed by the path strings the module builds, as it
  builds them: a directory by its path with the final \<^verbatim>\<open>/\<close>, a file by its path.
  \<open>RunsFile\<close> is a JSON file of the shape \<^verbatim>\<open>_init_run\<close> writes (an object whose values
  are \<^verbatim>\<open>[timestamp, description]\<close>), \<open>JsonFile\<close> any other JSON object, \<open>OtherFile\<close> a
  file that is not JSON (a log, an array).
\<close>

datatype node = Dir | RunsFile registry | JsonFile jdict | OtherFile

type_synonym fsys = "string \<Rightarrow> node option"

definition path_exists :: "fsys \<Rightarrow> string \<Rightarrow> bool" where
  "path_exists fs p = (fs p \<noteq> None)"

text \<open>The part of a path up to and including its last \<^verbatim>\<open>/\<close> (empty when it has none).\<close>

definition dirname :: "string \<Rightarrow> string" where
  "dirname p = rev (dropWhile (\<lambda>c. c \<noteq> CHR ''/'') (rev p))"

text \<open>\<^verbatim>\<open>open(p)\<close> for reading.\<close>

definition open_r :: "fsys \<Rightarrow> string \<Rightarrow> py_error + node" where
  "open_r fs p =
     (case fs p of
        None \<Rightarrow> Inl (FileNotFoundError p)
      | Some Dir \<Rightarrow> Inl (IsADirectoryError p)
      | Some n \<Rightarrow> Inr n)"

text \<open>
  \<^verbatim>\<open>open(p, 'w')\<close> followed by a dump of the content: the path must not be a directory,
  and a file that is not there yet needs its directory to exist (a path without \<^verbatim>\<open>/\<close>
  lies in the working directory). A file that is there is in a directory that exists.
\<close>

definition open_w :: "fsys \<Rightarrow> string \<Rightarrow> node \<Rightarrow> py_error + fsys" where
  "open_w fs p content =
     (if fs p = Some Dir then Inl (IsADirectoryError p)
      else if fs p = None \<and> dirname p \<noteq> [] \<and> \<not> path_exists fs (dirname p)
      then Inl (FileNotFoundError p)
      else Inr (fs(p \<mapsto> content)))"

text \<open>A registry read back as a plain JSON object.\<close>

definition jdict_of_registry :: "registry \<Rightarrow> jdict" where
  "jdict_of_registry r = map (\<lambda>(k, (t, d)). (k, JArr [JStr t, JStr d])) r"

text \<open>\<^verbatim>\<open>json.load(open(p), object_pairs_hook=OrderedDict)\<close> where the caller uses a record.\<close>

definition json_load :: "fsys \<Rightarrow> string \<Rightarrow> py_error + jdict" where
  "json_load fs p =
     (case open_r fs p of
        Inl e \<Rightarrow> Inl e
      | Inr (JsonFile d) \<Rightarrow> Inr d
      | Inr (RunsFile r) \<Rightarrow> Inr (jdict_of_registry r)
      | Inr _ \<Rightarrow> Inl (JSONDecodeError p))"

text \<open>
  The same where the caller uses the run registry. A JSON object of another shape than the
  registry's is outside the model.
\<close>

definition json_load_runs :: "fsys \<Rightarrow> string \<Rightarrow> py_error + registry" where
  "json_load_runs fs p =
     (case open_r fs p of
        Inl e \<Rightarrow> Inl e
      | Inr (RunsFile r) \<Rightarrow> Inr r
      | Inr (JsonFile d) \<Rightarrow> Inl (Unmodelled p)
      | Inr _ \<Rightarrow> Inl (JSONDecodeError p))"

text \<open>
  Modelled from the spec: \<^verbatim>\<open>utils.ensure_dir\<close> is not among the sources. The spec has it
  make the directory exist on disk (\<open>ensures the active run's root directory exists on
  disk\<close>, \<open>compute and create the step's data/figure/array subdirectories\<close>): every
  prefix of the path that ends in \<^verbatim>\<open>/\<close> becomes a directory unless the path is there.
\<close>

fun dir_prefixes :: "string \<Rightarrow> string \<Rightarrow> string list" where
  "dir_prefixes acc [] = []"
| "dir_prefixes acc (c # cs) =
     (if c = CHR ''/'' then [acc @ [c]] else []) @ dir_prefixes (acc @ [c]) cs"

definition ensure_dir :: "fsys \<Rightarrow> string \<Rightarrow> fsys" where
  "ensure_dir fs p = foldl (\<lambda>f q. if f q = None then f(q \<mapsto> Dir) else f) fs (dir_prefixes [] p)"

section \<open>Lineage resolver\<close>

text \<open>\<^verbatim>\<open>[__run] + list(range(__init_run, -1, -1))\<close>\<close>

definition trial_runs :: "pstate \<Rightarrow> int list" where
  "trial_runs s = uu_run s # rev [0..uu_init_run s]"

text \<open>
  The \<^verbatim>\<open>for\<close> loop of \<^verbatim>\<open>_get_step_dir_for_load\<close> over the runs that are left. The
  third argument is the variable \<^verbatim>\<open>step_dir\<close> (unbound before the first iteration). The
  result is \<open>Inr (Inl d)\<close> when the loop returns \<open>d\<close>, and \<open>Inr (Inr v)\<close> when it ends
  with \<^verbatim>\<open>step_dir\<close> holding \<open>v\<close>.
\<close>

fun search_runs ::
  "fsys \<Rightarrow> pstate \<Rightarrow> string option \<Rightarrow> string option \<Rightarrow> int list \<Rightarrow> py_error + (string + string option)" where
  "search_runs fs s step_name step_dir [] = Inr (Inr step_dir)"
| "search_runs fs s step_name step_dir (run # runs) =
     (case get_step_dir s step_name (Some run) of
        Inl e \<Rightarrow> Inl e
      | Inr d \<Rightarrow> if path_exists fs d then Inr (Inl d) else search_runs fs s step_name (Some d) runs)"

definition u_get_step_dir_for_load :: "fsys \<Rightarrow> pstate \<Rightarrow> string option \<Rightarrow> py_error + string" where
  "u_get_step_dir_for_load fs s step_name =
     (case search_runs fs s step_name None (trial_runs s) of
        Inl e \<Rightarrow> Inl e
      | Inr (Inl d) \<Rightarrow> Inr d
      | Inr (Inr None) \<Rightarrow> Inl (UnboundLocalError ''step_dir'')
      | Inr (Inr (Some d)) \<Rightarrow>
          Inl (FileNotFoundError
                 (''Did not find '' @ d @ '' in runs '' @ str_int_list (trial_runs s) @ ''.'')))"

section \<open>Ordered dictionaries\<close>

text \<open>
  \<^verbatim>\<open>d[k] = v\<close> on an \<^verbatim>\<open>OrderedDict\<close>: a key that is present keeps its position, a
  new key goes to the end. \<^verbatim>\<open>d.update(e)\<close> sets the items of \<open>e\<close> in their order.
\<close>

fun set_item :: "('k \<times> 'v) list \<Rightarrow> 'k \<Rightarrow> 'v \<Rightarrow> ('k \<times> 'v) list" where
  "set_item [] k v = [(k, v)]"
| "set_item ((k', v') # d) k v = (if k' = k then (k, v) # d else (k', v') # set_item d k v)"

definition update_dict :: "('k \<times> 'v) list \<Rightarrow> ('k \<times> 'v) list \<Rightarrow> ('k \<times> 'v) list" where
  "update_dict d e = foldl (\<lambda>acc kv. set_item acc (fst kv) (snd kv)) d e"

section \<open>Structured store\<close>

type_synonym world = "pstate \<times> fsys"

definition load_json :: "fsys \<Rightarrow> pstate \<Rightarrow> string \<Rightarrow> string option \<Rightarrow> py_error + jdict" where
  "load_json fs s basename step_name =
     (case u_get_step_dir_for_load fs s step_name of
        Inl e \<Rightarrow> Inl e
      | Inr step_dir \<Rightarrow> json_load fs (step_dir @ basename))"

definition save_json ::
  "string \<Rightarrow> jdict \<Rightarrow> string option \<Rightarrow> string \<Rightarrow> world \<Rightarrow> py_error + fsys" where
  "save_json basename dictionary step_name mode w =
     (let s = fst w; fs = snd w in
      case get_step_dir s step_name None of
        Inl e \<Rightarrow> Inl e
      | Inr step_dir \<Rightarrow>
          (let filename = step_dir @ basename in
           if mode = ''a'' \<and> path_exists fs filename
           then (case load_json fs s basename step_name of
                   Inl e \<Rightarrow> Inl e
                 | Inr old_d \<Rightarrow> open_w fs filename (JsonFile (update_dict old_d dictionary)))
           else open_w fs filename (JsonFile dictionary)))"

section \<open>Run registry\<close>

subsection \<open>\<^verbatim>\<open>int(s)\<close> for a string\<close>

text \<open>
  Python's \<^verbatim>\<open>int\<close> on a string of ASCII characters: white space around (space, tab,
  line feed, vertical tab, form feed, carriage return), an optional sign, then decimal
  digits, where single underscores may stand between digits. Any other string raises
  \<^verbatim>\<open>ValueError\<close>.
\<close>

definition is_digit :: "char \<Rightarrow> bool" where
  "is_digit c = (c \<in> set ''0123456789'')"

definition is_space :: "char \<Rightarrow> bool" where
  "is_space c = (c \<in> set [CHR '' '', CHR 0x09, CHR 0x0A, CHR 0x0B, CHR 0x0C, CHR 0x0D])"

definition strip :: "string \<Rightarrow> string" where
  "strip cs = rev (dropWhile is_space (rev (dropWhile is_space cs)))"

text \<open>Digits with single underscores between them; the flag says that a digit came last.\<close>

fun digits_ok :: "bool \<Rightarrow> string \<Rightarrow> bool" where
  "digits_ok after_digit [] = after_digit"
| "digits_ok after_digit (c # cs) =
     (if is_digit c then digits_ok True cs
      else if c = CHR ''_'' \<and> after_digit then cs \<noteq> [] \<and> is_digit (hd cs) \<and> digits_ok False cs
      else False)"

definition digit_val :: "char \<Rightarrow> nat" where
  "digit_val c = of_char c - 48"

definition digits_val :: "string \<Rightarrow> nat" where
  "digits_val cs = foldl (\<lambda>a c. 10 * a + digit_val c) 0 (filter is_digit cs)"

definition py_int :: "string \<Rightarrow> int option" where
  "py_int cs =
     (let t = strip cs;
          neg = (t \<noteq> [] \<and> hd t = CHR ''-'');
          body = (if t \<noteq> [] \<and> (hd t = CHR ''-'' \<or> hd t = CHR ''+'') then tl t else t)
      in if digits_ok False body
         then Some (if neg then - int (digits_val body) else int (digits_val body))
         else None)"

subsection \<open>\<^verbatim>\<open>_init_run\<close>\<close>

text \<open>
  A call that raises leaves the state as it is at that point, so a stateful function returns
  the exception, if any, together with the state: \<open>None\<close> is a normal return.
\<close>

definition runs_filename :: "pstate \<Rightarrow> py_error + string" where
  "runs_filename s =
     (case write_basedir s of
        None \<Rightarrow> Inl (TypeError ''unsupported operand type(s) for +'')
      | Some b \<Rightarrow>
          (case dataset_name s of
             None \<Rightarrow> Inl concat_none
           | Some d \<Rightarrow> Inr (b @ d @ ''_runs.json'')))"

text \<open>
  Lines 176 to 189: the registry is read (and assigned to \<^verbatim>\<open>avail_runs\<close>) and the run
  and its description are chosen.
\<close>

definition select_run ::
  "int \<Rightarrow> string \<Rightarrow> string \<Rightarrow> world \<Rightarrow> (py_error + int \<times> string) \<times> pstate" where
  "select_run run run_descr fname w =
     (let s = fst w; fs = snd w in
      if run = - 1 then
        if path_exists fs fname then
          (case json_load_runs fs fname of
             Inl e \<Rightarrow> (Inl e, s)
           | Inr reg \<Rightarrow>
               (let s1 = s\<lparr>avail_runs := reg\<rparr> in
                if reg = [] then (Inl StopIteration, s1)
                else (case py_int (fst (last reg)) of
                        None \<Rightarrow> (Inl (ValueError (fst (last reg))), s1)
                      | Some r \<Rightarrow> (Inr (if run_descr \<noteq> [] then r + 1 else r, run_descr), s1))))
        else (Inr (0, if run_descr = [] then ''run zero'' else run_descr), s)
      else
        (case json_load_runs fs fname of
           Inl e \<Rightarrow> (Inl e, s)
         | Inr reg \<Rightarrow> (Inr (run, run_descr), s\<lparr>avail_runs := reg\<rparr>)))"

text \<open>
  \<^verbatim>\<open>_init_run(run, run_descr, init_run)\<close>; \<open>now\<close> is what
  \<^verbatim>\<open>time.strftime('%Y-%m-%d %H:%M', time.localtime())\<close> returns during the call.
\<close>

definition u_init_run :: "string \<Rightarrow> int \<Rightarrow> string \<Rightarrow> int \<Rightarrow> world \<Rightarrow> py_error option \<times> world" where
  "u_init_run now run run_descr init_run w =
     (let fs = snd w in
      case runs_filename (fst w) of
        Inl e \<Rightarrow> (Some e, w)
      | Inr fname \<Rightarrow>
          (case select_run run run_descr fname w of
             (Inl e, s1) \<Rightarrow> (Some e, (s1, fs))
           | (Inr (run1, descr1), s1) \<Rightarrow>
               (case (if avail_runs s1 \<noteq> [] \<and> descr1 = []
                      then (case map_of (avail_runs s1) (str_int run1) of
                              None \<Rightarrow> Inl (KeyError (str_int run1))
                            | Some entry \<Rightarrow> Inr (snd entry))
                      else Inr descr1) of
                  Inl e \<Rightarrow> (Some e, (s1, fs))
                | Inr descr2 \<Rightarrow>
                    (let s2 = s1\<lparr>avail_runs := set_item (avail_runs s1) (str_int run1) (now, descr2)\<rparr> in
                     case open_w fs fname (RunsFile (avail_runs s2)) of
                       Inl e \<Rightarrow> (Some e, (s2, fs))
                     | Inr fs1 \<Rightarrow>
                         (let s3 = s2\<lparr>uu_run := run1,
                                       uu_init_run := (if init_run > - 1 then init_run else run1 - 1)\<rparr> in
                          case get_write_dir s3 None of
                            Inl e \<Rightarrow> (Some e, (s3, fs1))
                          | Inr wd \<Rightarrow> (None, (s3, ensure_dir fs1 wd)))))))"

text \<open>
  The registry a call of \<^verbatim>\<open>_init_run\<close> starts from: the content of the registry file
  when there is one, else the dictionary that \<^verbatim>\<open>avail_runs\<close> holds.
\<close>

definition registry_read :: "pstate \<Rightarrow> fsys \<Rightarrow> string \<Rightarrow> registry" where
  "registry_read s fs fname = (case fs fname of Some (RunsFile reg) \<Rightarrow> reg | _ \<Rightarrow> avail_runs s)"

section \<open>Step executor\<close>

text \<open>The catalogue of steps, \<^verbatim>\<open>avail_steps\<close>: key and step name, in the source's order.\<close>

definition avail_steps :: "(string \<times> string) list" where
  "avail_steps =
     [(''0'', ''resample_lungs''), (''1'', ''gen_prob_maps''), (''2'', ''gen_nodule_masks''),
      (''3'', ''gen_candidates''), (''3eval'', ''gen_candidates_eval''),
      (''3vis'', ''gen_candidates_vis''), (''4'', ''interpolate_candidates''),
      (''5'', ''filter_candidates''), (''6'', ''gen_nodule_seg_data''), (''7'', ''gen_submission''),
      (''8'', ''include_nodule_distr''), (''9'', ''pred_cancer_per_candidate'')]"

text \<open>
  Opening a log file, as \<^verbatim>\<open>logging.FileHandler(filename, mode)\<close> and
  \<^verbatim>\<open>open(log_tf, mode)\<close> do: mode \<^verbatim>\<open>w\<close> leaves an empty file, mode \<^verbatim>\<open>a\<close> keeps a
  file that is there. The module passes no other mode. What the loggers write afterwards,
  and the logger objects themselves (\<^verbatim>\<open>log_pipe\<close>, \<^verbatim>\<open>log_step\<close>, \<^verbatim>\<open>log\<close>,
  \<^verbatim>\<open>log_tf\<close>), are not part of the modelled state; the pipeline log is taken to be
  initialised.
\<close>

definition open_log :: "fsys \<Rightarrow> string \<Rightarrow> string \<Rightarrow> py_error + fsys" where
  "open_log fs p mode =
     (if mode = ''w'' then open_w fs p OtherFile
      else if mode = ''a'' then
        (case fs p of
           None \<Rightarrow> open_w fs p OtherFile
         | Some Dir \<Rightarrow> Inl (IsADirectoryError p)
         | Some n \<Rightarrow> Inr fs)
      else Inl (Unmodelled mode))"

definition u_init_log_step :: "string \<Rightarrow> string \<Rightarrow> world \<Rightarrow> py_error option \<times> fsys" where
  "u_init_log_step step_name mode w =
     (let s = fst w; fs = snd w in
      case get_step_dir s (Some step_name) None of
        Inl e \<Rightarrow> (Some e, fs)
      | Inr step_dir \<Rightarrow>
          (case open_log fs (step_dir @ ''log.txt'') mode of
             Inl e \<Rightarrow> (Some e, fs)
           | Inr fs1 \<Rightarrow>
               (case get_write_dir s None of
                  Inl e \<Rightarrow> (Some e, fs1)
                | Inr wd \<Rightarrow>
                    (case open_log fs1 (wd @ ''log.txt'') ''a'' of
                       Inl e \<Rightarrow> (Some e, fs1)
                     | Inr fs2 \<Rightarrow>
                         (case open_log fs2 (step_dir @ ''log_tf.txt'') mode of
                            Inl e \<Rightarrow> (Some e, fs2)
                          | Inr fs3 \<Rightarrow> (None, fs3))))))"

definition u_init_step :: "string \<Rightarrow> string \<Rightarrow> string \<Rightarrow> world \<Rightarrow> py_error option \<times> world" where
  "u_init_step step_name mode suffix w =
     (let s = fst w; fs = snd w in
      case filter (\<lambda>kv. snd kv = step_name) avail_steps of
        [] \<Rightarrow> (Some (IndexError ''list index out of range''), w)
      | kv # _ \<Rightarrow>
          (let s1 = s\<lparr>uu_step := Some (fst kv), uu_step_name := Some step_name,
                        uu_step_dir_suffix := suffix @ uu_step_dir_suffix s\<rparr> in
           case get_step_dir s1 None None of
             Inl e \<Rightarrow> (Some e, (s1, fs))
           | Inr step_dir \<Rightarrow>
               (let fs1 = ensure_dir fs (step_dir @ ''arrays/'');
                    fs2 = ensure_dir fs1 (step_dir @ ''figs/'');
                    r = u_init_log_step step_name mode (s1, fs2)
                in (fst r, (s1, snd r)))))"

text \<open>
  What the executor uses and the sources do not hold. A step module has the entry point
  \<^verbatim>\<open>run\<close>, which gets the parameters and may read and change the state and the files, and
  the entry point's docstring (\<^verbatim>\<open>run.__doc__\<close>, \<^verbatim>\<open>None\<close> when it has none).
  \<open>import_module\<close> is \<^verbatim>\<open>import_module('.steps.' + step_name, 'dsb3')\<close>, with \<open>None\<close>
  when there is no such module; \<open>dir_is_empty\<close> is \<^verbatim>\<open>utils.dir_is_empty\<close> and
  \<open>write_figs_overview_html\<close> is \<^verbatim>\<open>vis.write_figs_overview_html\<close>.
\<close>

record step_module =
  run_entry :: "jdict \<Rightarrow> world \<Rightarrow> py_error option \<times> world"
  run_doc :: "string option"

record ext =
  import_module :: "string \<Rightarrow> step_module option"
  dir_is_empty :: "fsys \<Rightarrow> string \<Rightarrow> bool"
  write_figs_overview_html :: "string \<Rightarrow> world \<Rightarrow> py_error option \<times> world"

definition u_visualize_step :: "ext \<Rightarrow> string option \<Rightarrow> world \<Rightarrow> (py_error + bool) \<times> world" where
  "u_visualize_step x step_name w =
     (let r = (case step_name of None \<Rightarrow> (None, w) | Some n \<Rightarrow> u_init_step n ''a'' [] w) in
      case fst r of
        Some e \<Rightarrow> (Inl e, snd r)
      | None \<Rightarrow>
          (let w1 = snd r in
           case get_step_dir (fst w1) None None of
             Inl e \<Rightarrow> (Inl e, w1)
           | Inr step_dir \<Rightarrow>
               (let figs_dir = step_dir @ ''figs/'' in
                if path_exists (snd w1) figs_dir \<and> \<not> dir_is_empty x (snd w1) figs_dir
                then (case write_figs_overview_html x figs_dir w1 of
                        (Some e, w2) \<Rightarrow> (Inl e, w2)
                      | (None, w2) \<Rightarrow> (Inr True, w2))
                else (Inr False, w1))))"

text \<open>\<^verbatim>\<open>needle in hay\<close> for strings.\<close>

fun starts_with :: "string \<Rightarrow> string \<Rightarrow> bool" where
  "starts_with hay [] = True"
| "starts_with [] (c # needle) = False"
| "starts_with (h # hay) (c # needle) = (h = c \<and> starts_with hay needle)"

fun str_contains :: "string \<Rightarrow> string \<Rightarrow> bool" where
  "str_contains [] needle = (needle = [])"
| "str_contains (h # hay) needle = (starts_with (h # hay) needle \<or> str_contains hay needle)"

text \<open>
  The \<^verbatim>\<open>except TypeError\<close> clause of \<^verbatim>\<open>_run_step\<close>: what is raised in place of the
  entry point's exception \<open>e\<close>. Adding \<^verbatim>\<open>None\<close> to a string raises a \<^verbatim>\<open>TypeError\<close>
  of its own.
\<close>

definition reraise :: "string option \<Rightarrow> py_error \<Rightarrow> py_error" where
  "reraise doc e =
     (case e of
        TypeError msg \<Rightarrow>
          if str_contains msg ''run() got an unexpected keyword argument''
          then (case doc of
                  None \<Rightarrow> concat_none
                | Some d \<Rightarrow> TypeError (msg @ [CHR 0x0A] @ '' Provide one of the valid parameters''
                                           @ [CHR 0x0A] @ d))
          else e
      | _ \<Rightarrow> e)"

text \<open>
  Lines 218 to 232 of \<^verbatim>\<open>_run_step\<close>: the step is initialised, the line for the logs is
  built (it reads the description of the current run from the registry) and the parameters
  are dumped to \<^verbatim>\<open>params.json\<close> in the step directory.
\<close>

definition persist_params :: "string \<Rightarrow> jdict \<Rightarrow> string \<Rightarrow> world \<Rightarrow> py_error option \<times> world" where
  "persist_params step_name params suffix w =
     (case u_init_step step_name ''w'' suffix w of
        (Some e, w1) \<Rightarrow> (Some e, w1)
      | (None, w1) \<Rightarrow>
          (case map_of (avail_runs (fst w1)) (str_int (uu_run (fst w1))) of
             None \<Rightarrow> (Some (KeyError (str_int (uu_run (fst w1)))), w1)
           | Some entry \<Rightarrow>
               (case get_step_dir (fst w1) None None of
                  Inl e \<Rightarrow> (Some e, w1)
                | Inr step_dir \<Rightarrow>
                    (case open_w (snd w1) (step_dir @ ''params.json'') (JsonFile params) of
                       Inl e \<Rightarrow> (Some e, w1)
                     | Inr fs2 \<Rightarrow> (None, (fst w1, fs2))))))"

text \<open>\<^verbatim>\<open>_run_step(step_name, params, suffix)\<close>: the lines above, then the import of the step
  module, the call of its entry point and the overview of the figures.\<close>

definition u_run_step :: "ext \<Rightarrow> string \<Rightarrow> jdict \<Rightarrow> string \<Rightarrow> world \<Rightarrow> py_error option \<times> world" where
  "u_run_step x step_name params suffix w =
     (case persist_params step_name params suffix w of
        (Some e, w1) \<Rightarrow> (Some e, w1)
      | (None, w2) \<Rightarrow>
          (case import_module x step_name of
             None \<Rightarrow> (Some (ImportError step_name), w2)
           | Some m \<Rightarrow>
               (case run_entry m params w2 of
                  (Some e, w3) \<Rightarrow> (Some (reraise (run_doc m) e), w3)
                | (None, w3) \<Rightarrow>
                    (case u_visualize_step x None w3 of
                       (Inl e, w4) \<Rightarrow> (Some e, w4)
                     | (Inr b, w4) \<Rightarrow> (None, w4)))))"

text \<open>The parameter file of the current step holds the parameters.\<close>

definition params_on_disk :: "jdict \<Rightarrow> world \<Rightarrow> bool" where
  "params_on_disk params w =
     (case get_step_dir (fst w) None None of
        Inl e \<Rightarrow> False
      | Inr step_dir \<Rightarrow> snd w (step_dir @ ''params.json'') = Some (JsonFile params))"

section \<open>Patient initialization\<close>

text \<open>\<^verbatim>\<open>xs[a:b]\<close> for integers \<open>a\<close> and \<open>b\<close>.\<close>

definition slice_index :: "nat \<Rightarrow> int \<Rightarrow> nat" where
  "slice_index n i = (if i < 0 then nat (max 0 (int n + i)) else min n (nat i))"

definition py_slice :: "'a list \<Rightarrow> int \<Rightarrow> int \<Rightarrow> 'a list" where
  "py_slice xs a b = take (slice_index (length xs) b - slice_index (length xs) a)
                          (drop (slice_index (length xs) a) xs)"

text \<open>\<^verbatim>\<open>xs[i]\<close> for an integer \<open>i\<close>.\<close>

definition py_index :: "'a list \<Rightarrow> int \<Rightarrow> py_error + 'a" where
  "py_index xs i =
     (let j = (if i < 0 then int (length xs) + i else i) in
      if 0 \<le> j \<and> j < int (length xs) then Inr (xs ! nat j)
      else Inl (IndexError ''list index out of range''))"

definition dsb3_patients :: "string list" where
  "dsb3_patients =
     [''09ee522a3b7dbea48aa6d39afe240129'', ''cb64ff663195832e0b66a9bb17891954'',
      ''74b3ef4c2125d636980a19754702dbb9'', ''4aa3131e76b28e30235664087407edc3'',
      ''edad5e439ba696b89872f6b9af10cba0'', ''007c1246c5fe6f200378f6b91323dc2a'',
      ''e4a87107f94e4a8e32b735d18cef1137'', ''eb8d5136918d6859ca3cc3abafe369ac'',
      ''d51dffd06b80ed003aa6095b0639f511'', ''d81ab3ad896e4198caed105c469a4817'']"

definition luna16_patients :: "string list" where
  "luna16_patients =
     [''164790817284381538042494285101'', ''756684168227383088294595834066'',
      ''143410010885830403003179808334'', ''154703816225841204080664115280'',
      ''908250781706513856628130123235'', ''922852847124879997825997808179'']"

text \<open>
  \<^verbatim>\<open>_init_patients(_n_patients, single_patient_id, fromto_patients)\<close> from line 282 on.
  The lines before read the list of patients from a file or from the raw data directory;
  \<open>loaded\<close> is their outcome, an exception or the list of all patients.
\<close>

definition u_init_patients ::
  "(py_error + string list) \<Rightarrow> int \<Rightarrow> string option \<Rightarrow> int list option \<Rightarrow> pstate
     \<Rightarrow> py_error option \<times> pstate" where
  "u_init_patients loaded n single_patient_id fromto_patients s =
     (case loaded of
        Inl e \<Rightarrow> (Some e, s)
      | Inr ps \<Rightarrow>
          (let s1 = s\<lparr>patients := Some ps, uu_step_dir_suffix := []\<rparr>;
               finish = (\<lambda>s'. (None, s'\<lparr>n_patients := map_option length (patients s')\<rparr>)) in
           if n > 0 then
             finish (s1\<lparr>patients := Some
               (if dataset_name s = Some ''LUNA16'' then luna16_patients
                else if dataset_name s = Some ''dsb3'' then dsb3_patients
                else take (nat n) ps)\<rparr>)
           else if single_patient_id \<noteq> None then
             finish (s1\<lparr>patients := Some [the single_patient_id]\<rparr>)
           else
             (case fromto_patients of
                None \<Rightarrow> finish s1
              | Some ft \<Rightarrow>
                  (case py_index ft 0 of
                     Inl e \<Rightarrow> (Some e, s1)
                   | Inr a \<Rightarrow>
                       (case py_index ft (- 1) of
                          Inl e \<Rightarrow> (Some e, s1)
                        | Inr z \<Rightarrow>
                            (let s2 = s1\<lparr>patients := Some (py_slice ps a z)\<rparr> in
                             case py_index ft 1 of
                               Inl e \<Rightarrow> (Some e, s2)
                             | Inr b \<Rightarrow>
                                 finish (s2\<lparr>uu_step_dir_suffix :=
                                    ''_fromto'' @ str_int a @ ''-'' @ str_int b\<rparr>)))))))"

section \<open>Example configurations\<close>

text \<open>A configured pipeline: base directory \<^verbatim>\<open>/data/\<close>, dataset \<^verbatim>\<open>dsb3\<close>.\<close>

definition conf0 :: pstate where
  "conf0 = module_init\<lparr>write_basedir := Some ''/data/'', dataset_name := Some ''dsb3''\<rparr>"

text \<open>
  The example of the spec: the active run is 3 with the initialization run pinned to 1.
  \<open>fs_dirs\<close> is a file system that holds the given directories and nothing else.
\<close>

definition conf3 :: pstate where
  "conf3 = conf0\<lparr>uu_run := 3, uu_init_run := 1\<rparr>"

definition fs_dirs :: "string list \<Rightarrow> fsys" where
  "fs_dirs ps = (\<lambda>p. if p \<in> set ps then Some Dir else None)"

text \<open>
  Registries for the examples. In \<open>reg_021\<close> the entry added last is run 1 and the highest
  run is 2, as after pinning run 2 and then run 1 on a registry that held run 0.
\<close>

definition reg_0 :: registry where
  "reg_0 = [(''0'', (''2017-03-01 10:00'', ''run zero''))]"

definition reg_021 :: registry where
  "reg_021 = [(''0'', (''2017-03-01 10:00'', ''run zero'')),
              (''2'', (''2017-03-02 10:00'', ''second'')),
              (''1'', (''2017-03-03 10:00'', ''first''))]"

definition fs_reg :: "registry \<Rightarrow> fsys" where
  "fs_reg r = (\<lambda>p. if p = ''/data/'' then Some Dir
                    else if p = ''/data/dsb3_runs.json'' then Some (RunsFile r) else None)"

text \<open>
  Step modules for the examples: the entry point of \<open>mod_raise e\<close> raises \<open>e\<close> on every
  call and leaves the state and the files as they are; \<open>ext_raise e\<close> has this module for
  every step name. \<open>unexpected_kwarg\<close> is what Python raises when \<^verbatim>\<open>run\<close> is called with
  the unknown keyword argument \<^verbatim>\<open>foo\<close>. \<open>world0\<close> is run 0 of the registry \<open>reg_0\<close>.
\<close>

definition mod_raise :: "py_error \<Rightarrow> step_module" where
  "mod_raise e = \<lparr> run_entry = (\<lambda>params w. (Some e, w)), run_doc = Some ''n_threads, verbose'' \<rparr>"

definition ext_raise :: "py_error \<Rightarrow> ext" where
  "ext_raise e = \<lparr> import_module = (\<lambda>n. Some (mod_raise e)), dir_is_empty = (\<lambda>fs p. True),
     write_figs_overview_html = (\<lambda>p w. (None, w)) \<rparr>"

definition unexpected_kwarg :: py_error where
  "unexpected_kwarg = TypeError (''run() got an unexpected keyword argument 'foo'' @ [CHR 0x27])"

definition world0 :: world where
  "world0 = (conf0\<lparr>avail_runs := reg_0\<rparr>, fs_reg reg_0)"

text \<open>
  Run 1 with initialization run 0: both runs have the directory of the step
  \<^verbatim>\<open>gen_prob_maps\<close>, and only run 0 has a record \<^verbatim>\<open>out.json\<close> there.
\<close>

definition conf1 :: pstate where
  "conf1 = conf0\<lparr>uu_run := 1, uu_init_run := 0\<rparr>"

definition fs_lineage :: fsys where
  "fs_lineage = (fs_dirs [''/data/'', ''/data/dsb3_0/'', ''/data/dsb3_0/gen_prob_maps/'',
                          ''/data/dsb3_1/'', ''/data/dsb3_1/gen_prob_maps/''])
       (''/data/dsb3_0/gen_prob_maps/out.json'' \<mapsto> JsonFile [(''x'', JNum 9)])"

text \<open>A registry with the runs 0 and 1, in the order in which resuming adds them.\<close>

definition reg_01 :: registry where
  "reg_01 = [(''0'', (''2017-03-01 10:00'', ''run zero'')),
             (''1'', (''2017-03-02 10:00'', ''first''))]"

text \<open>
  A step module without a docstring whose entry point raises \<open>e\<close>, and the environment
  that has it for every step name. \<open>nested_kwarg\<close> is what Python raises when a method
  \<^verbatim>\<open>Model.run\<close>, called inside a step, gets the unknown keyword argument \<^verbatim>\<open>x\<close>.
\<close>

definition mod_nodoc :: "py_error \<Rightarrow> step_module" where
  "mod_nodoc e = \<lparr> run_entry = (\<lambda>params w. (Some e, w)), run_doc = None \<rparr>"

definition ext_nodoc :: "py_error \<Rightarrow> ext" where
  "ext_nodoc e = \<lparr> import_module = (\<lambda>n. Some (mod_nodoc e)), dir_is_empty = (\<lambda>fs p. True),
     write_figs_overview_html = (\<lambda>p w. (None, w)) \<rparr>"

definition nested_kwarg :: py_error where
  "nested_kwarg = TypeError (''Model.run() got an unexpected keyword argument 'x'' @ [CHR 0x27])"

section \<open>Path resolver: properties\<close>

lemma digit_char_inj: "a < 10 \<Longrightarrow> b < 10 \<Longrightarrow> digit_char a = digit_char b \<Longrightarrow> a = b"
proof -
  assume a: "a < 10" and b: "b < 10" and e: "digit_char a = digit_char b"
  from a have ca: "a \<in> {0, 1, 2, 3, 4, 5, 6, 7, 8, 9}" by auto
  from b have cb: "b \<in> {0, 1, 2, 3, 4, 5, 6, 7, 8, 9}" by auto
  from ca cb e show ?thesis
    by (auto simp: digit_char_def)
qed

lemma digit_char_not_special:
  "d < 10 \<Longrightarrow> digit_char d \<noteq> CHR ''/'' \<and> digit_char d \<noteq> CHR ''-''"
proof -
  assume "d < 10"
  then have "d \<in> {0, 1, 2, 3, 4, 5, 6, 7, 8, 9}" by auto
  then show ?thesis by (auto simp: digit_char_def)
qed

lemma str_nat_small: "n < 10 \<Longrightarrow> str_nat n = [digit_char n]"
  by (simp add: str_nat.simps)

lemma str_nat_big: "\<not> n < 10 \<Longrightarrow> str_nat n = str_nat (n div 10) @ [digit_char (n mod 10)]"
  by (subst str_nat.simps) simp

lemma str_nat_nonempty: "str_nat n \<noteq> []"
  by (subst str_nat.simps) simp

lemma str_nat_chars: "c \<in> set (str_nat n) \<Longrightarrow> c \<noteq> CHR ''/'' \<and> c \<noteq> CHR ''-''"
proof (induction n rule: str_nat.induct)
  case (1 n)
  show ?case
  proof (cases "n < 10")
    case True
    with 1(2) digit_char_not_special [of n] show ?thesis
      by (simp add: str_nat_small)
  next
    case False
    have m: "n mod 10 < 10" by simp
    from 1(2) False have "c \<in> set (str_nat (n div 10)) \<or> c = digit_char (n mod 10)"
      by (auto simp: str_nat_big)
    then show ?thesis
      using 1(1) [OF False] digit_char_not_special [OF m] by auto
  qed
qed

lemma str_nat_inj: "str_nat a = str_nat b \<Longrightarrow> a = b"
proof (induction a arbitrary: b rule: str_nat.induct)
  case (1 n)
  show ?case
  proof (cases "n < 10")
    case True
    show ?thesis
    proof (cases "b < 10")
      case b: True
      with True 1(2) show ?thesis
        by (simp add: str_nat_small digit_char_inj)
    next
      case b: False
      from 1(2) True b have "[digit_char n] = str_nat (b div 10) @ [digit_char (b mod 10)]"
        by (simp add: str_nat_small str_nat_big)
      then have "str_nat (b div 10) = []" by simp
      with str_nat_nonempty show ?thesis by blast
    qed
  next
    case False
    show ?thesis
    proof (cases "b < 10")
      case b: True
      from 1(2) False b have "str_nat (n div 10) @ [digit_char (n mod 10)] = [digit_char b]"
        by (simp add: str_nat_small str_nat_big)
      then have "str_nat (n div 10) = []" by simp
      with str_nat_nonempty show ?thesis by blast
    next
      case b: False
      from 1(2) False b
      have e: "str_nat (n div 10) @ [digit_char (n mod 10)] = str_nat (b div 10) @ [digit_char (b mod 10)]"
        by (simp add: str_nat_big)
      then have e1: "str_nat (n div 10) = str_nat (b div 10)"
        and e2: "digit_char (n mod 10) = digit_char (b mod 10)"
        by simp_all
      from 1(1) [OF False e1] have d: "n div 10 = b div 10" .
      have "n mod 10 = b mod 10"
        by (rule digit_char_inj [OF _ _ e2]) simp_all
      with d show ?thesis
        by (metis div_mult_mod_eq)
    qed
  qed
qed

lemma str_int_inj: "str_int a = str_int b \<Longrightarrow> a = b"
proof -
  assume e: "str_int a = str_int b"
  have hd_nat: "\<And>n. hd (str_nat n) \<noteq> CHR ''-''"
    using str_nat_chars str_nat_nonempty by (metis hd_in_set)
  show ?thesis
  proof (cases "a < 0")
    case a: True
    show ?thesis
    proof (cases "b < 0")
      case True
      with a e have "str_nat (nat (- a)) = str_nat (nat (- b))"
        by (simp add: str_int_def)
      then have "nat (- a) = nat (- b)" by (rule str_nat_inj)
      with a True show ?thesis by simp
    next
      case False
      with a e have "CHR ''-'' # str_nat (nat (- a)) = str_nat (nat b)"
        by (simp add: str_int_def)
      then have "hd (str_nat (nat b)) = CHR ''-''" by (metis list.sel(1))
      with hd_nat show ?thesis by blast
    qed
  next
    case a: False
    show ?thesis
    proof (cases "b < 0")
      case True
      with a e have "str_nat (nat a) = CHR ''-'' # str_nat (nat (- b))"
        by (simp add: str_int_def)
      then have "hd (str_nat (nat a)) = CHR ''-''" by (metis list.sel(1))
      with hd_nat show ?thesis by blast
    next
      case False
      with a e have "str_nat (nat a) = str_nat (nat b)"
        by (simp add: str_int_def)
      then have "nat a = nat b" by (rule str_nat_inj)
      with a False show ?thesis by simp
    qed
  qed
qed

lemma str_int_no_slash: "CHR ''/'' \<notin> set (str_int i)"
  using str_nat_chars by (auto simp: str_int_def)

lemma split_at_first:
  "c \<notin> set xs \<Longrightarrow> c \<notin> set xs' \<Longrightarrow> xs @ c # ys = xs' @ c # ys' \<Longrightarrow> xs = xs' \<and> ys = ys'"
proof (induction xs arbitrary: xs')
  case Nil
  then show ?case by (cases xs') auto
next
  case (Cons a xs)
  then show ?case by (cases xs') auto
qed

lemma step_dir_of_conf:
  "write_basedir s = Some b \<Longrightarrow> dataset_name s = Some d \<Longrightarrow>
   step_dir_of s r n x = Inr (b @ d @ ''_'' @ str_int r @ ''/'' @ n @ x @ ''/'')"
  by (simp add: step_dir_of_def get_step_dir_def get_write_dir_def)

text \<open>
  C4, as the code has it. The path is a function of the triple, and for a configured
  pipeline two triples (run, step name, suffix) have the same step directory exactly when
  the runs are equal and the step name followed by the suffix is the same string. So the
  path determines the run and the concatenation of name and suffix, not the name and the
  suffix themselves.
\<close>

theorem step_dir_of_eq_iff:
  assumes "write_basedir s = Some b" and "dataset_name s = Some d"
  shows "(step_dir_of s r1 n1 x1 = step_dir_of s r2 n2 x2) = (r1 = r2 \<and> n1 @ x1 = n2 @ x2)"
proof
  assume "step_dir_of s r1 n1 x1 = step_dir_of s r2 n2 x2"
  then have "str_int r1 @ CHR ''/'' # (n1 @ x1 @ ''/'') = str_int r2 @ CHR ''/'' # (n2 @ x2 @ ''/'')"
    using assms by (simp add: step_dir_of_conf)
  then have "str_int r1 = str_int r2 \<and> n1 @ x1 @ ''/'' = n2 @ x2 @ ''/''"
    by (rule split_at_first [OF str_int_no_slash str_int_no_slash])
  then have "r1 = r2" and "(n1 @ x1) @ ''/'' = (n2 @ x2) @ ''/''"
    by (auto dest: str_int_inj)
  then show "r1 = r2 \<and> n1 @ x1 = n2 @ x2"
    by (metis append_same_eq)
next
  assume "r1 = r2 \<and> n1 @ x1 = n2 @ x2"
  then show "step_dir_of s r1 n1 x1 = step_dir_of s r2 n2 x2"
    using assms by (simp add: step_dir_of_conf)
qed

theorem step_dir_of_eq_iff_witness:
  "write_basedir conf0 = Some ''/data/'' \<and> dataset_name conf0 = Some ''dsb3''
   \<and> step_dir_of conf0 2 ''gen_candidates'' ''_a'' \<noteq> step_dir_of conf0 3 ''gen_candidates'' ''_a''
   \<and> step_dir_of conf0 2 ''gen_candidates'' ''_a'' = Inr ''/data/dsb3_2/gen_candidates_a/''"
proof -
  have b: "write_basedir conf0 = Some ''/data/''" and d: "dataset_name conf0 = Some ''dsb3''"
    by (simp_all add: conf0_def module_init_def)
  have "step_dir_of conf0 2 ''gen_candidates'' ''_a'' \<noteq> step_dir_of conf0 3 ''gen_candidates'' ''_a''"
    using step_dir_of_eq_iff [OF b d, of 2 "''gen_candidates''" "''_a''" 3 "''gen_candidates''" "''_a''"]
    by simp
  moreover have "step_dir_of conf0 2 ''gen_candidates'' ''_a'' = Inr ''/data/dsb3_2/gen_candidates_a/''"
    by (simp add: step_dir_of_conf [OF b d] str_int_def str_nat.simps digit_char_def)
  ultimately show ?thesis using b d by simp
qed

text \<open>
  The statement of the spec fails: the catalogue has the steps \<^verbatim>\<open>gen_candidates\<close> and
  \<^verbatim>\<open>gen_candidates_eval\<close>, and the first with the suffix \<^verbatim>\<open>_eval\<close> has the directory
  of the second with no suffix.
\<close>

theorem step_dir_of_not_injective:
  "(0, ''gen_candidates'', ''_eval'') \<noteq> (0 :: int, ''gen_candidates_eval'', '''')
   \<and> step_dir_of conf0 0 ''gen_candidates'' ''_eval'' = step_dir_of conf0 0 ''gen_candidates_eval'' ''''
   \<and> step_dir_of conf0 0 ''gen_candidates'' ''_eval'' = Inr ''/data/dsb3_0/gen_candidates_eval/''"
  by (simp add: step_dir_of_def get_step_dir_def get_write_dir_def conf0_def module_init_def
      str_int_def str_nat.simps digit_char_def)

section \<open>Lineage resolver: properties\<close>

lemma get_step_dir_conf:
  "write_basedir s = Some b \<Longrightarrow> dataset_name s = Some d \<Longrightarrow>
   get_step_dir s (Some n) (Some r) = Inr (b @ d @ ''_'' @ str_int r @ ''/'' @ n @ uu_step_dir_suffix s @ ''/'')"
  by (simp add: get_step_dir_def get_write_dir_def)

lemma get_step_dir_default_name: "get_step_dir s None r = get_step_dir s (uu_step_name s) r"
  by (cases "uu_step_name s") (simp_all add: get_step_dir_def)

lemma search_runs_default_name:
  "search_runs fs s None acc runs = search_runs fs s (uu_step_name s) acc runs"
  by (induction runs arbitrary: acc) (simp_all add: get_step_dir_default_name split: sum.splits)

lemma rev_upto_eq: "rev [0..i] = map (\<lambda>k. i - int k) [0..<nat (i + 1)]"
proof (rule nth_equalityI)
  show "length (rev [0..i]) = length (map (\<lambda>k. i - int k) [0..<nat (i + 1)])"
    by simp
next
  fix k assume "k < length (rev [0..i])"
  then have k: "k < nat (i + 1)" by simp
  then show "rev [0..i] ! k = map (\<lambda>k. i - int k) [0..<nat (i + 1)] ! k"
    by (simp add: rev_nth nth_upto)
qed

lemma search_runs_find:
  assumes "\<And>r. get_step_dir s nm (Some r) = Inr (D r)"
  shows "search_runs fs s nm acc runs =
     (case find (\<lambda>r. path_exists fs (D r)) runs of
        Some r \<Rightarrow> Inr (Inl (D r))
      | None \<Rightarrow> Inr (Inr (if runs = [] then acc else Some (D (last runs)))))"
  by (induction runs arbitrary: acc) (auto simp: assms split: option.splits)

lemma trial_runs_nonempty: "trial_runs s \<noteq> []" "last (trial_runs s) = (if uu_init_run s < 0 then uu_run s else 0)"
   apply (simp add: trial_runs_def)
  apply (simp add: trial_runs_def)
  apply (auto simp: upto.simps)
  done

lemma resolve_char:
  assumes "\<And>r. get_step_dir s nm (Some r) = Inr (D r)"
  shows "u_get_step_dir_for_load fs s nm =
     (case find (\<lambda>r. path_exists fs (D r)) (trial_runs s) of
        Some r \<Rightarrow> Inr (D r)
      | None \<Rightarrow> Inl (FileNotFoundError (''Did not find '' @ D (last (trial_runs s)) @ '' in runs ''
                    @ str_int_list (trial_runs s) @ ''.'')))"
  by (simp add: u_get_step_dir_for_load_def search_runs_find [where D = D, OF assms] trial_runs_nonempty(1)
      split: option.splits)

lemma u_init_run_init:
  "u_init_run now run descr i w = (None, (s', fs')) \<Longrightarrow>
   uu_init_run s' = (if i > - 1 then i else uu_run s' - 1)"
  by (auto simp: u_init_run_def Let_def split: sum.splits prod.splits if_splits option.splits)

text \<open>
  C1. The chain of runs that a load consults is the current run \<open>r\<close> followed by
  \<open>i, i - 1, \<dots>, 0\<close> for the initialization run \<open>i\<close> (nothing follows when
  \<open>i\<close> is negative), and \<^verbatim>\<open>_init_run\<close> sets \<open>i\<close> to the pinned run, or to
  \<open>r - 1\<close> when none is pinned. The resolver returns the step directory of the first run
  of the chain whose directory exists, and nothing else: its result is the same on any
  two file systems that agree on which of the chain's step directories exist, whatever
  files they hold. With no step name given it uses the current step's.
\<close>

theorem lineage_resolution:
  fixes s :: pstate and fs :: fsys and n b d :: string
  defines "D \<equiv> \<lambda>r. b @ d @ ''_'' @ str_int r @ ''/'' @ n @ uu_step_dir_suffix s @ ''/''"
  assumes "write_basedir s = Some b" and "dataset_name s = Some d"
  shows "trial_runs s = uu_run s # map (\<lambda>k. uu_init_run s - int k) [0..<nat (uu_init_run s + 1)]
    \<and> (\<forall>r. get_step_dir s (Some n) (Some r) = Inr (D r))
    \<and> (\<forall>p. (u_get_step_dir_for_load fs s (Some n) = Inr p)
           = (\<exists>r. find (\<lambda>r. path_exists fs (D r)) (trial_runs s) = Some r \<and> p = D r))
    \<and> (\<forall>fs'. (\<forall>r \<in> set (trial_runs s). path_exists fs' (D r) = path_exists fs (D r))
           \<longrightarrow> u_get_step_dir_for_load fs' s (Some n) = u_get_step_dir_for_load fs s (Some n))
    \<and> u_get_step_dir_for_load fs s None = u_get_step_dir_for_load fs s (uu_step_name s)
    \<and> (\<forall>now run descr i w s' fs'. u_init_run now run descr i w = (None, (s', fs'))
           \<longrightarrow> uu_init_run s' = (if i > - 1 then i else uu_run s' - 1))"
proof -
  have g: "\<And>r. get_step_dir s (Some n) (Some r) = Inr (D r)"
    unfolding D_def by (rule get_step_dir_conf [OF assms(2,3)])
  have c1: "trial_runs s = uu_run s # map (\<lambda>k. uu_init_run s - int k) [0..<nat (uu_init_run s + 1)]"
    by (simp add: trial_runs_def rev_upto_eq)
  have c3: "\<forall>p. (u_get_step_dir_for_load fs s (Some n) = Inr p)
           = (\<exists>r. find (\<lambda>r. path_exists fs (D r)) (trial_runs s) = Some r \<and> p = D r)"
    by (auto simp: resolve_char [where D = D, OF g] split: option.splits)
  have c4: "\<forall>fs'. (\<forall>r \<in> set (trial_runs s). path_exists fs' (D r) = path_exists fs (D r))
           \<longrightarrow> u_get_step_dir_for_load fs' s (Some n) = u_get_step_dir_for_load fs s (Some n)"
  proof (intro allI impI)
    fix fs' assume a: "\<forall>r \<in> set (trial_runs s). path_exists fs' (D r) = path_exists fs (D r)"
    then have "find (\<lambda>r. path_exists fs' (D r)) (trial_runs s) = find (\<lambda>r. path_exists fs (D r)) (trial_runs s)"
      by (intro find_cong) auto
    then show "u_get_step_dir_for_load fs' s (Some n) = u_get_step_dir_for_load fs s (Some n)"
      by (simp add: resolve_char [where D = D, OF g])
  qed
  have c5: "u_get_step_dir_for_load fs s None = u_get_step_dir_for_load fs s (uu_step_name s)"
    by (simp add: u_get_step_dir_for_load_def search_runs_default_name)
  have c6: "\<forall>now run descr i w s' fs'. u_init_run now run descr i w = (None, (s', fs'))
           \<longrightarrow> uu_init_run s' = (if i > - 1 then i else uu_run s' - 1)"
    using u_init_run_init by blast
  from g c1 c3 c4 c5 c6 show ?thesis by blast
qed

lemma conf3_fields:
  "write_basedir conf3 = Some ''/data/''" "dataset_name conf3 = Some ''dsb3''"
  "uu_step_dir_suffix conf3 = []" "uu_run conf3 = 3" "uu_init_run conf3 = 1"
  by (simp_all add: conf3_def conf0_def module_init_def)

lemma str_int_small: "str_int 0 = ''0''" "str_int 1 = ''1''" "str_int 2 = ''2''" "str_int 3 = ''3''"
  by (simp_all add: str_int_def str_nat.simps digit_char_def)

lemma trial_runs_conf3: "trial_runs conf3 = [3, 1, 0]"
  by (simp add: trial_runs_def conf3_fields upto.simps)

theorem lineage_resolution_witness:
  "write_basedir conf3 = Some ''/data/'' \<and> dataset_name conf3 = Some ''dsb3''
   \<and> trial_runs conf3 = [3, 1, 0]
   \<and> u_get_step_dir_for_load (fs_dirs [''/data/dsb3_0/gen_prob_maps/'', ''/data/dsb3_2/gen_prob_maps/''])
        conf3 (Some ''gen_prob_maps'') = Inr ''/data/dsb3_0/gen_prob_maps/''"
proof -
  let ?fs = "fs_dirs [''/data/dsb3_0/gen_prob_maps/'', ''/data/dsb3_2/gen_prob_maps/'']"
  have f: "find (\<lambda>r. path_exists ?fs (''/data/'' @ ''dsb3'' @ ''_'' @ str_int r @ ''/'' @ ''gen_prob_maps''
             @ uu_step_dir_suffix conf3 @ ''/'')) (trial_runs conf3) = Some 0"
    by (simp add: trial_runs_conf3 conf3_fields str_int_small path_exists_def fs_dirs_def)
  from lineage_resolution [OF conf3_fields(1,2), of "''gen_prob_maps''" ?fs] f
  have "u_get_step_dir_for_load ?fs conf3 (Some ''gen_prob_maps'')
        = Inr (''/data/'' @ ''dsb3'' @ ''_'' @ str_int 0 @ ''/'' @ ''gen_prob_maps'' @ uu_step_dir_suffix conf3 @ ''/'')"
    by blast
  then show ?thesis
    by (simp add: conf3_fields str_int_small trial_runs_conf3)
qed

text \<open>
  C2. When no run of the chain has the step directory, the resolver, and with it the load
  of a structured record, raises \<^verbatim>\<open>FileNotFoundError\<close>; the message names the last
  directory tried and lists the chain as Python prints a list, \<^verbatim>\<open>[3, 1, 0]\<close> for
  run 3 with the initialization run pinned to 1.
\<close>

theorem lineage_exhausted:
  fixes s :: pstate and fs :: fsys and n b d :: string
  defines "D \<equiv> \<lambda>r. b @ d @ ''_'' @ str_int r @ ''/'' @ n @ uu_step_dir_suffix s @ ''/''"
  assumes "write_basedir s = Some b" and "dataset_name s = Some d"
    and "\<forall>r \<in> set (trial_runs s). \<not> path_exists fs (D r)"
  shows "u_get_step_dir_for_load fs s (Some n) =
           Inl (FileNotFoundError (''Did not find '' @ D (last (trial_runs s)) @ '' in runs ''
                  @ str_int_list (trial_runs s) @ ''.''))
    \<and> load_json fs s basename (Some n) =
           Inl (FileNotFoundError (''Did not find '' @ D (last (trial_runs s)) @ '' in runs ''
                  @ str_int_list (trial_runs s) @ ''.''))"
proof -
  have g: "\<And>r. get_step_dir s (Some n) (Some r) = Inr (D r)"
    unfolding D_def by (rule get_step_dir_conf [OF assms(2,3)])
  from assms(4) have "find (\<lambda>r. path_exists fs (D r)) (trial_runs s) = None"
    by (simp add: find_None_iff)
  then have "u_get_step_dir_for_load fs s (Some n) =
           Inl (FileNotFoundError (''Did not find '' @ D (last (trial_runs s)) @ '' in runs ''
                  @ str_int_list (trial_runs s) @ ''.''))"
    by (simp add: resolve_char [where D = D, OF g])
  then show ?thesis
    by (simp add: load_json_def)
qed

theorem lineage_exhausted_witness:
  "write_basedir conf3 = Some ''/data/'' \<and> dataset_name conf3 = Some ''dsb3''
   \<and> trial_runs conf3 = [3, 1, 0]
   \<and> load_json (fs_dirs [''/data/dsb3_2/gen_prob_maps/'']) conf3 ''out.json'' (Some ''gen_prob_maps'')
       = Inl (FileNotFoundError ''Did not find /data/dsb3_0/gen_prob_maps/ in runs [3, 1, 0].'')"
proof -
  let ?fs = "fs_dirs [''/data/dsb3_2/gen_prob_maps/'']"
  have h: "\<forall>r \<in> set (trial_runs conf3). \<not> path_exists ?fs (''/data/'' @ ''dsb3'' @ ''_'' @ str_int r @ ''/''
             @ ''gen_prob_maps'' @ uu_step_dir_suffix conf3 @ ''/'')"
    by (simp add: trial_runs_conf3 conf3_fields str_int_small path_exists_def fs_dirs_def)
  from lineage_exhausted [OF conf3_fields(1,2) h, of "''out.json''"]
  show ?thesis
    by (simp add: conf3_fields str_int_small trial_runs_conf3 str_int_list_def)
qed

section \<open>Run registry: properties\<close>

lemma foldl_keep:
  "fs p = Some x \<Longrightarrow> foldl (\<lambda>f q. if f q = None then f(q \<mapsto> Dir) else f) fs qs p = Some x"
proof (induction qs arbitrary: fs)
  case Nil
  then show ?case by simp
next
  case (Cons a qs)
  have "(if fs a = None then fs(a \<mapsto> Dir) else fs) p = Some x"
    using Cons.prems by auto
  then show ?case
    using Cons.IH [of "if fs a = None then fs(a \<mapsto> Dir) else fs"] by simp
qed

lemma ensure_dir_keeps: "fs p = Some x \<Longrightarrow> ensure_dir fs q p = Some x"
  by (simp add: ensure_dir_def foldl_keep)

lemma map_of_set_item: "map_of (set_item d k v) = (map_of d)(k \<mapsto> v)"
  by (induction d k v rule: set_item.induct) auto

lemma filter_set_item:
  "filter (\<lambda>e. fst e \<noteq> k) (set_item d k v) = filter (\<lambda>e. fst e \<noteq> k) d"
  by (induction d k v rule: set_item.induct) auto


lemma runs_filename_conf:
  "write_basedir s = Some b \<Longrightarrow> dataset_name s = Some d \<Longrightarrow> runs_filename s = Inr (b @ d @ ''_runs.json'')"
  by (simp add: runs_filename_def)

lemma get_write_dir_conf:
  "write_basedir s = Some b \<Longrightarrow> dataset_name s = Some d \<Longrightarrow>
   get_write_dir s None = Inr (b @ d @ ''_'' @ str_int (uu_run s) @ ''/'')"
  by (simp add: get_write_dir_def)

lemma resume_new:
  assumes "write_basedir s = Some b" and "dataset_name s = Some d"
    and "fs (b @ d @ ''_runs.json'') = Some (RunsFile reg)"
    and "reg \<noteq> []" and "py_int (fst (last reg)) = Some k" and "descr \<noteq> []"
  shows "u_init_run now (- 1) descr i (s, fs) =
     (None, (s\<lparr>avail_runs := set_item reg (str_int (k + 1)) (now, descr), uu_run := k + 1,
               uu_init_run := (if i > - 1 then i else k)\<rparr>,
             ensure_dir (fs(b @ d @ ''_runs.json'' \<mapsto> RunsFile (set_item reg (str_int (k + 1)) (now, descr))))
               (b @ d @ ''_'' @ str_int (k + 1) @ ''/'')))"
  using assms
  by (simp add: u_init_run_def runs_filename_conf select_run_def path_exists_def json_load_runs_def
      open_r_def open_w_def get_write_dir_def Let_def)

lemma resume_same:
  assumes "write_basedir s = Some b" and "dataset_name s = Some d"
    and "fs (b @ d @ ''_runs.json'') = Some (RunsFile reg)"
    and "py_int (fst (last reg)) = Some k" and "map_of reg (str_int k) = Some (t, dsc)"
  shows "u_init_run now (- 1) [] i (s, fs) =
     (None, (s\<lparr>avail_runs := set_item reg (str_int k) (now, dsc), uu_run := k,
               uu_init_run := (if i > - 1 then i else k - 1)\<rparr>,
             ensure_dir (fs(b @ d @ ''_runs.json'' \<mapsto> RunsFile (set_item reg (str_int k) (now, dsc))))
               (b @ d @ ''_'' @ str_int k @ ''/'')))"
proof -
  from assms(5) have "reg \<noteq> []" by auto
  with assms show ?thesis
    by (simp add: u_init_run_def runs_filename_conf select_run_def path_exists_def json_load_runs_def
      open_r_def open_w_def get_write_dir_def Let_def)
qed

lemma conf0_fields:
  "write_basedir conf0 = Some ''/data/''" "dataset_name conf0 = Some ''dsb3''"
  "uu_step_dir_suffix conf0 = []" "uu_run conf0 = 0" "uu_init_run conf0 = - 1" "avail_runs conf0 = []"
  by (simp_all add: conf0_def module_init_def)

lemma py_int_small: "py_int ''0'' = Some 0" "py_int ''1'' = Some 1" "py_int ''2'' = Some 2"
  by (simp_all add: py_int_def strip_def is_space_def is_digit_def digits_val_def digit_val_def)

lemma fs_reg_file: "fs_reg r (''/data/'' @ ''dsb3'' @ ''_runs.json'') = Some (RunsFile r)"
  by (simp add: fs_reg_def)

lemma pin_new:
  assumes "write_basedir s = Some b" and "dataset_name s = Some d"
    and "fs (b @ d @ ''_runs.json'') = Some (RunsFile reg)"
    and "run \<noteq> - 1" and "descr \<noteq> []"
  shows "u_init_run now run descr i (s, fs) =
     (None, (s\<lparr>avail_runs := set_item reg (str_int run) (now, descr), uu_run := run,
               uu_init_run := (if i > - 1 then i else run - 1)\<rparr>,
             ensure_dir (fs(b @ d @ ''_runs.json'' \<mapsto> RunsFile (set_item reg (str_int run) (now, descr))))
               (b @ d @ ''_'' @ str_int run @ ''/'')))"
  using assms
  by (simp add: u_init_run_def runs_filename_conf select_run_def path_exists_def json_load_runs_def
      open_r_def open_w_def get_write_dir_def Let_def)

text \<open>
  The registry \<open>reg_021\<close> is what the registry file holds after \<^verbatim>\<open>_init_run\<close> has
  pinned run 2 and then run 1 on the registry \<open>reg_0\<close>.
\<close>

lemma reg_021_reachable:
  "snd (snd (u_init_run ''2017-03-03 10:00'' 1 ''first'' (- 1)
          (snd (u_init_run ''2017-03-02 10:00'' 2 ''second'' (- 1) (conf0, fs_reg reg_0)))))
     ''/data/dsb3_runs.json'' = Some (RunsFile reg_021)"
proof -
  have 1: "u_init_run ''2017-03-02 10:00'' 2 ''second'' (- 1) (conf0, fs_reg reg_0) =
     (None, (conf0\<lparr>avail_runs := set_item reg_0 (str_int 2) (''2017-03-02 10:00'', ''second''), uu_run := 2,
               uu_init_run := (if (- 1 :: int) > - 1 then - 1 else 2 - 1)\<rparr>,
             ensure_dir ((fs_reg reg_0)(''/data/'' @ ''dsb3'' @ ''_runs.json'' \<mapsto>
                  RunsFile (set_item reg_0 (str_int 2) (''2017-03-02 10:00'', ''second''))))
               (''/data/'' @ ''dsb3'' @ ''_'' @ str_int 2 @ ''/'')))"
    by (rule pin_new [where s = conf0 and fs = "fs_reg reg_0" and reg = reg_0,
          OF conf0_fields(1,2) fs_reg_file]) simp_all
  let ?s1 = "conf0\<lparr>avail_runs := set_item reg_0 (str_int 2) (''2017-03-02 10:00'', ''second''), uu_run := 2,
               uu_init_run := (if (- 1 :: int) > - 1 then - 1 else 2 - 1)\<rparr>"
  let ?fs1 = "ensure_dir ((fs_reg reg_0)(''/data/'' @ ''dsb3'' @ ''_runs.json'' \<mapsto>
                  RunsFile (set_item reg_0 (str_int 2) (''2017-03-02 10:00'', ''second''))))
               (''/data/'' @ ''dsb3'' @ ''_'' @ str_int 2 @ ''/'')"
  let ?r1 = "set_item reg_0 (str_int 2) (''2017-03-02 10:00'', ''second'')"
  have f1: "?fs1 (''/data/'' @ ''dsb3'' @ ''_runs.json'') = Some (RunsFile ?r1)"
    by (rule ensure_dir_keeps) simp
  have c1: "write_basedir ?s1 = Some ''/data/''" "dataset_name ?s1 = Some ''dsb3''"
    by (simp_all add: conf0_fields)
  have 2: "u_init_run ''2017-03-03 10:00'' 1 ''first'' (- 1) (?s1, ?fs1) =
     (None, (?s1\<lparr>avail_runs := set_item ?r1 (str_int 1) (''2017-03-03 10:00'', ''first''), uu_run := 1,
               uu_init_run := (if (- 1 :: int) > - 1 then - 1 else 1 - 1)\<rparr>,
             ensure_dir (?fs1(''/data/'' @ ''dsb3'' @ ''_runs.json'' \<mapsto>
                  RunsFile (set_item ?r1 (str_int 1) (''2017-03-03 10:00'', ''first''))))
               (''/data/'' @ ''dsb3'' @ ''_'' @ str_int 1 @ ''/'')))"
    by (rule pin_new [where s = ?s1 and fs = ?fs1 and reg = ?r1, OF c1 f1]) simp_all
  have "snd (snd (u_init_run ''2017-03-03 10:00'' 1 ''first'' (- 1) (?s1, ?fs1))) (''/data/'' @ ''dsb3'' @ ''_runs.json'')
      = Some (RunsFile (set_item ?r1 (str_int 1) (''2017-03-03 10:00'', ''first'')))"
    unfolding 2 by (simp only: snd_conv) (rule ensure_dir_keeps, simp)
  then show ?thesis
    unfolding 1 by (simp add: str_int_small reg_0_def reg_021_def)
qed

text \<open>
  C8. When the registry file's last entry is run \<open>k\<close> and the registry has an entry for
  \<open>k\<close> with description \<open>dsc\<close>, a call with the empty description returns normally,
  keeps \<open>k\<close> as the active run and stores \<open>dsc\<close> again in the entry of \<open>k\<close>, in the
  dictionary and in the file.
\<close>

theorem resume_keeps_description:
  assumes "write_basedir s = Some b" and "dataset_name s = Some d"
    and "fs (b @ d @ ''_runs.json'') = Some (RunsFile reg)"
    and "py_int (fst (last reg)) = Some k" and "map_of reg (str_int k) = Some (t, dsc)"
  shows "fst (u_init_run now (- 1) [] i (s, fs)) = None
    \<and> uu_run (fst (snd (u_init_run now (- 1) [] i (s, fs)))) = k
    \<and> map_of (avail_runs (fst (snd (u_init_run now (- 1) [] i (s, fs))))) (str_int k) = Some (now, dsc)
    \<and> snd (snd (u_init_run now (- 1) [] i (s, fs))) (b @ d @ ''_runs.json'')
        = Some (RunsFile (avail_runs (fst (snd (u_init_run now (- 1) [] i (s, fs))))))"
proof -
  have keep: "ensure_dir (fs(b @ d @ ''_runs.json'' \<mapsto> RunsFile r)) q (b @ d @ ''_runs.json'') = Some (RunsFile r)" for r q
    by (rule ensure_dir_keeps) simp
  show ?thesis
    by (simp add: resume_same [where s = s and b = b and d = d and fs = fs and reg = reg, OF assms]
        map_of_set_item keep)
qed











text \<open>
  A registry whose order does not follow the runs, such as \<open>reg_021\<close>, is not one
  the statement above is about: there \<^verbatim>\<open>_init_run\<close> still goes by the last entry, which is
  run 1, and makes run 2 the active run.
\<close>

lemma resume_on_reg_021:
  "fst (u_init_run ''2017-03-05 09:00'' (- 1) ''tuned'' (- 1) (conf0, fs_reg reg_021)) = None
   \<and> uu_run (fst (snd (u_init_run ''2017-03-05 09:00'' (- 1) ''tuned'' (- 1) (conf0, fs_reg reg_021)))) = 2"
proof -
  have h3: "reg_021 \<noteq> []" and h4: "py_int (fst (last reg_021)) = Some 1" and h5: "''tuned'' \<noteq> []"
    by (simp_all add: reg_021_def py_int_small)
  show ?thesis
    by (simp add: resume_new [where s = conf0 and fs = "fs_reg reg_021" and reg = reg_021,
      OF conf0_fields(1,2) fs_reg_file h3 h4 h5])
qed

theorem resume_keeps_description_witness:
  "write_basedir conf0 = Some ''/data/'' \<and> dataset_name conf0 = Some ''dsb3''
   \<and> fs_reg reg_01 ''/data/dsb3_runs.json'' = Some (RunsFile reg_01)
   \<and> py_int (fst (last reg_01)) = Some 1
   \<and> map_of reg_01 ''1'' = Some (''2017-03-02 10:00'', ''first'')
   \<and> fst (u_init_run ''2017-03-05 09:00'' (- 1) [] (- 1) (conf0, fs_reg reg_01)) = None
   \<and> uu_run (fst (snd (u_init_run ''2017-03-05 09:00'' (- 1) [] (- 1) (conf0, fs_reg reg_01)))) = 1
   \<and> map_of (avail_runs (fst (snd (u_init_run ''2017-03-05 09:00'' (- 1) [] (- 1) (conf0, fs_reg reg_01))))) ''1''
       = Some (''2017-03-05 09:00'', ''first'')"
proof -
  have h4: "py_int (fst (last reg_01)) = Some 1"
    and h5: "map_of reg_01 (str_int 1) = Some (''2017-03-02 10:00'', ''first'')"
    by (simp_all add: reg_01_def py_int_small str_int_small)
  from resume_keeps_description [where s = conf0 and fs = "fs_reg reg_01" and reg = reg_01,
      OF conf0_fields(1,2) fs_reg_file h4 h5, of "''2017-03-05 09:00''" "- 1"] h4 h5
  show ?thesis
    by (simp add: conf0_fields fs_reg_def str_int_small)
qed

lemma select_run_base:
  "select_run run descr fname (s, fs) = (Inr (r1, d1), s1) \<Longrightarrow>
   s1 = s\<lparr>avail_runs := registry_read s fs fname\<rparr> \<and> (fs fname = None \<or> (\<exists>reg. fs fname = Some (RunsFile reg)))"
  by (auto simp: select_run_def Let_def registry_read_def path_exists_def json_load_runs_def open_r_def
      split: if_splits sum.splits option.splits node.splits)

lemma u_init_run_success:
  assumes "u_init_run now run descr i (s, fs) = (None, (s', fs'))"
  shows "\<exists>fname r1 dsc wd. runs_filename s = Inr fname
     \<and> s' = s\<lparr>avail_runs := set_item (registry_read s fs fname) (str_int r1) (now, dsc),
               uu_run := r1, uu_init_run := (if i > - 1 then i else r1 - 1)\<rparr>
     \<and> fs' = ensure_dir (fs(fname \<mapsto> RunsFile (set_item (registry_read s fs fname) (str_int r1) (now, dsc)))) wd"
proof -
  from assms obtain fname where f: "runs_filename s = Inr fname"
    by (auto simp: u_init_run_def split: sum.splits)
  from assms f obtain r1 d1 s1 where sel: "select_run run descr fname (s, fs) = (Inr (r1, d1), s1)"
    by (auto simp: u_init_run_def split: sum.splits prod.splits)
  from select_run_base [OF sel] have s1: "s1 = s\<lparr>avail_runs := registry_read s fs fname\<rparr>" by simp
  from assms f sel show ?thesis
    unfolding s1
    by (auto simp: u_init_run_def Let_def open_w_def split: sum.splits option.splits if_splits)
qed

text \<open>
  C10. Every call of \<^verbatim>\<open>_init_run\<close> that returns, whatever the run, the description and
  the initialization run, has set the entry of the active run to the current time and some
  description in the registry it started from, and has written the result to the registry
  file: the timestamp of the active run's entry is the time of the call, not the stored
  one, and the entries under every other key are the ones read, in the same order.
\<close>

theorem init_run_rewrites_active_entry:
  assumes "u_init_run now run descr i (s, fs) = (None, (s', fs'))"
  shows "\<exists>fname dsc. runs_filename s = Inr fname
     \<and> avail_runs s' = set_item (registry_read s fs fname) (str_int (uu_run s')) (now, dsc)
     \<and> fs' fname = Some (RunsFile (avail_runs s'))
     \<and> map_of (avail_runs s') (str_int (uu_run s')) = Some (now, dsc)
     \<and> filter (\<lambda>e. fst e \<noteq> str_int (uu_run s')) (avail_runs s')
         = filter (\<lambda>e. fst e \<noteq> str_int (uu_run s')) (registry_read s fs fname)"
proof -
  from u_init_run_success [OF assms] obtain fname r1 dsc wd where
    f: "runs_filename s = Inr fname"
    and s': "s' = s\<lparr>avail_runs := set_item (registry_read s fs fname) (str_int r1) (now, dsc),
               uu_run := r1, uu_init_run := (if i > - 1 then i else r1 - 1)\<rparr>"
    and fs': "fs' = ensure_dir (fs(fname \<mapsto> RunsFile (set_item (registry_read s fs fname) (str_int r1) (now, dsc)))) wd"
    by blast
  have "fs' fname = Some (RunsFile (avail_runs s'))"
    unfolding fs' s' by (simp add: ensure_dir_keeps)
  with f show ?thesis
    by (simp add: s' map_of_set_item filter_set_item)
qed

theorem init_run_rewrites_active_entry_witness:
  "fst (u_init_run ''2017-03-05 09:00'' (- 1) [] (- 1) (conf0, fs_reg reg_0)) = None
   \<and> map_option fst (map_of (avail_runs (fst (snd (u_init_run ''2017-03-05 09:00'' (- 1) [] (- 1)
         (conf0, fs_reg reg_0))))) ''0'') = Some ''2017-03-05 09:00''
   \<and> map_option fst (map_of (registry_read conf0 (fs_reg reg_0) ''/data/dsb3_runs.json'') ''0'')
       = Some ''2017-03-01 10:00''
   \<and> snd (snd (u_init_run ''2017-03-05 09:00'' (- 1) [] (- 1) (conf0, fs_reg reg_0))) ''/data/dsb3_runs.json''
       = Some (RunsFile (avail_runs (fst (snd (u_init_run ''2017-03-05 09:00'' (- 1) [] (- 1)
           (conf0, fs_reg reg_0))))))"
proof -
  let ?res = "u_init_run ''2017-03-05 09:00'' (- 1) [] (- 1) (conf0, fs_reg reg_0)"
  have h4: "py_int (fst (last reg_0)) = Some 0"
    and h5: "map_of reg_0 (str_int 0) = Some (''2017-03-01 10:00'', ''run zero'')"
    by (simp_all add: reg_0_def py_int_small str_int_small)
  have ok: "fst ?res = None" and run: "uu_run (fst (snd ?res)) = 0"
    using resume_same [where s = conf0 and fs = "fs_reg reg_0" and reg = reg_0,
      OF conf0_fields(1,2) fs_reg_file h4 h5, of "''2017-03-05 09:00''" "- 1"]
    by simp_all
  then have e: "?res = (None, (fst (snd ?res), snd (snd ?res)))"
    by (metis prod.collapse)
  have rr: "registry_read conf0 (fs_reg reg_0) ''/data/dsb3_runs.json'' = reg_0"
    by (simp add: registry_read_def fs_reg_def)
  from init_run_rewrites_active_entry [OF e] obtain dsc where
    "map_of (avail_runs (fst (snd ?res))) (str_int (uu_run (fst (snd ?res)))) = Some (''2017-03-05 09:00'', dsc)"
    and "snd (snd ?res) ''/data/dsb3_runs.json'' = Some (RunsFile (avail_runs (fst (snd ?res))))"
    by (auto simp: runs_filename_def conf0_fields)
  with ok show ?thesis
    by (simp add: run rr str_int_small) (simp add: reg_0_def)
qed

section \<open>Step executor: properties\<close>

lemma starts_with_iff: "starts_with hay needle = (\<exists>rest. hay = needle @ rest)"
  by (induction hay needle rule: starts_with.induct) auto

lemma str_contains_iff: "str_contains hay needle = (\<exists>pre post. hay = pre @ needle @ post)"
proof (induction hay)
  case Nil
  then show ?case by auto
next
  case (Cons h hay)
  show ?case
  proof
    assume "str_contains (h # hay) needle"
    then consider "starts_with (h # hay) needle" | "str_contains hay needle" by auto
    then show "\<exists>pre post. h # hay = pre @ needle @ post"
    proof cases
      case 1
      then obtain rest where "h # hay = needle @ rest" by (auto simp: starts_with_iff)
      then have "h # hay = [] @ needle @ rest" by simp
      then show ?thesis by blast
    next
      case 2
      with Cons.IH obtain pre post where "hay = pre @ needle @ post" by blast
      then have "h # hay = (h # pre) @ needle @ post" by simp
      then show ?thesis by blast
    qed
  next
    assume "\<exists>pre post. h # hay = pre @ needle @ post"
    then obtain pre post where e: "h # hay = pre @ needle @ post" by blast
    show "str_contains (h # hay) needle"
    proof (cases pre)
      case Nil
      with e have "starts_with (h # hay) needle" by (auto simp: starts_with_iff)
      then show ?thesis by simp
    next
      case (Cons a pre')
      with e have "hay = pre' @ needle @ post" by simp
      with Cons.IH have "str_contains hay needle" by blast
      then show ?thesis by simp
    qed
  qed
qed

lemma persist_params_on_disk:
  assumes "persist_params step_name params suffix w = (None, w2)"
  shows "params_on_disk params w2"
  using assms
  by (auto simp: persist_params_def params_on_disk_def open_w_def
      split: prod.splits option.splits sum.splits if_splits)

lemma u_visualize_step_import:
  "u_visualize_step (x\<lparr>import_module := i\<rparr>) n w = u_visualize_step x n w"
  by (auto simp: u_visualize_step_def Let_def split: option.splits sum.splits)

lemma run_step_entry_raises:
  assumes "persist_params step_name params suffix w = (None, w2)"
    and "import_module x step_name = Some m"
    and "run_entry m params w2 = (Some e, w3)"
  shows "u_run_step x step_name params suffix w = (Some (reraise (run_doc m) e), w3)"
  using assms by (simp add: u_run_step_def)

text \<open>
  C6. Whenever the executor gets as far as the entry point, the parameter file of the step
  holds the parameters in the state it hands to the entry point. It follows that the
  executor's result depends on the entry point only through what the entry point does on
  states where the parameter file is written: replacing the entry point by one that
  agrees with it on those states changes nothing. And when the entry point raises, the
  executor raises as well and returns the state the entry point left, which started from a
  state with the parameter file on disk.
\<close>

theorem params_written_before_entry:
  "(\<forall>w2. persist_params step_name params suffix w = (None, w2) \<longrightarrow> params_on_disk params w2)
   \<and> (\<forall>m g. import_module x step_name = Some m
          \<and> (\<forall>w2. params_on_disk params w2 \<longrightarrow> g params w2 = run_entry m params w2)
        \<longrightarrow> u_run_step (x\<lparr>import_module := (import_module x)(step_name \<mapsto> m\<lparr>run_entry := g\<rparr>)\<rparr>)
              step_name params suffix w
            = u_run_step x step_name params suffix w)
   \<and> (\<forall>m e w2 w3. persist_params step_name params suffix w = (None, w2)
          \<and> import_module x step_name = Some m \<and> run_entry m params w2 = (Some e, w3)
        \<longrightarrow> params_on_disk params w2
            \<and> fst (u_run_step x step_name params suffix w) \<noteq> None
            \<and> snd (u_run_step x step_name params suffix w) = w3)"
proof (intro conjI allI impI)
  fix w2 assume "persist_params step_name params suffix w = (None, w2)"
  then show "params_on_disk params w2" by (rule persist_params_on_disk)
next
  fix m g
  assume a: "import_module x step_name = Some m
          \<and> (\<forall>w2. params_on_disk params w2 \<longrightarrow> g params w2 = run_entry m params w2)"
  show "u_run_step (x\<lparr>import_module := (import_module x)(step_name \<mapsto> m\<lparr>run_entry := g\<rparr>)\<rparr>)
              step_name params suffix w
            = u_run_step x step_name params suffix w"
  proof -
    obtain r w2 where Pair: "persist_params step_name params suffix w = (r, w2)"
      by (cases "persist_params step_name params suffix w") auto
    show ?thesis
    proof (cases r)
      case None
      with Pair have "params_on_disk params w2" by (blast intro: persist_params_on_disk)
      with a have "g params w2 = run_entry m params w2" by blast
      with a Pair None show ?thesis
        by (auto simp: u_run_step_def u_visualize_step_import split: prod.splits option.splits sum.splits)
    next
      case (Some e)
      with Pair show ?thesis by (simp add: u_run_step_def)
    qed
  qed
next
  fix m e w2 w3
  assume a: "persist_params step_name params suffix w = (None, w2)
          \<and> import_module x step_name = Some m \<and> run_entry m params w2 = (Some e, w3)"
  then show "params_on_disk params w2" by (blast intro: persist_params_on_disk)
  from a have "u_run_step x step_name params suffix w = (Some (reraise (run_doc m) e), w3)"
    by (simp add: run_step_entry_raises)
  then show "fst (u_run_step x step_name params suffix w) \<noteq> None"
    and "snd (u_run_step x step_name params suffix w) = w3" by simp_all
qed

lemma persist_world0:
  "fst (persist_params ''gen_prob_maps'' [(''n_threads'', JNum 4)] [] world0) = None"
  by (simp add: persist_params_def u_init_step_def avail_steps_def world0_def Let_def
      get_step_dir_def get_write_dir_def conf0_def module_init_def str_int_small
      ensure_dir_def u_init_log_step_def open_log_def open_w_def dirname_def path_exists_def
      fs_reg_def reg_0_def split: prod.splits)

lemma ext_raise_fields:
  "import_module (ext_raise e) n = Some (mod_raise e)"
  "run_entry (mod_raise e) p w = (Some e, w)"
  "run_doc (mod_raise e) = Some ''n_threads, verbose''"
  by (simp_all add: ext_raise_def mod_raise_def)

theorem params_written_before_entry_witness:
  "fst (persist_params ''gen_prob_maps'' [(''n_threads'', JNum 4)] [] world0) = None
   \<and> fst (u_run_step (ext_raise unexpected_kwarg) ''gen_prob_maps'' [(''n_threads'', JNum 4)] [] world0) \<noteq> None
   \<and> params_on_disk [(''n_threads'', JNum 4)]
        (snd (u_run_step (ext_raise unexpected_kwarg) ''gen_prob_maps'' [(''n_threads'', JNum 4)] [] world0))"
proof -
  let ?p = "[(''n_threads'', JNum 4)]"
  let ?w2 = "snd (persist_params ''gen_prob_maps'' ?p [] world0)"
  let ?x = "ext_raise unexpected_kwarg"
  have e: "persist_params ''gen_prob_maps'' ?p [] world0 = (None, ?w2)"
    using persist_world0 by (metis prod.collapse)
  from params_written_before_entry [of "''gen_prob_maps''" ?p "[]" world0 ?x]
  have "params_on_disk ?p ?w2
     \<and> fst (u_run_step ?x ''gen_prob_maps'' ?p [] world0) \<noteq> None
     \<and> snd (u_run_step ?x ''gen_prob_maps'' ?p [] world0) = ?w2"
    using e ext_raise_fields(1,2) by blast
  with persist_world0 show ?thesis by simp
qed

text \<open>
  C7, as the code has it. Let the entry point raise \<open>e\<close>. The executor tells an unknown
  parameter by the text of the exception: when \<open>e\<close> is a \<^verbatim>\<open>TypeError\<close> whose message
  contains \<^verbatim>\<open>run() got an unexpected keyword argument\<close> (the message of a call of the
  entry point with an unknown parameter does, and so does that of any other function named
  \<^verbatim>\<open>run\<close> called inside the step) and the entry point has a docstring, the executor
  raises a \<^verbatim>\<open>TypeError\<close> whose message is the message of \<open>e\<close>, the line
  \<^verbatim>\<open> Provide one of the valid parameters\<close> and the docstring. An exception that is not a
  \<^verbatim>\<open>TypeError\<close>, and a \<^verbatim>\<open>TypeError\<close> whose message does not contain that text, is
  raised as it is. Here \<open>str_contains\<close> is Python's substring test.
\<close>

theorem entry_failure_reraised:
  assumes "persist_params step_name params suffix w = (None, w2)"
    and "import_module x step_name = Some m"
    and "run_entry m params w2 = (Some e, w3)"
  shows "(\<forall>msg d. e = TypeError msg \<and> str_contains msg ''run() got an unexpected keyword argument''
              \<and> run_doc m = Some d
           \<longrightarrow> u_run_step x step_name params suffix w
                 = (Some (TypeError (msg @ [CHR 0x0A] @ '' Provide one of the valid parameters''
                                       @ [CHR 0x0A] @ d)), w3))
     \<and> ((\<forall>msg. e \<noteq> TypeError msg) \<longrightarrow> u_run_step x step_name params suffix w = (Some e, w3))
     \<and> (\<forall>msg. e = TypeError msg \<and> \<not> str_contains msg ''run() got an unexpected keyword argument''
           \<longrightarrow> u_run_step x step_name params suffix w = (Some e, w3))
     \<and> (\<forall>hay needle. str_contains hay needle = (\<exists>pre post. hay = pre @ needle @ post))"
proof -
  have r: "u_run_step x step_name params suffix w = (Some (reraise (run_doc m) e), w3)"
    using assms by (rule run_step_entry_raises)
  have 1: "\<forall>msg d. e = TypeError msg \<and> str_contains msg ''run() got an unexpected keyword argument''
              \<and> run_doc m = Some d
           \<longrightarrow> u_run_step x step_name params suffix w
                 = (Some (TypeError (msg @ [CHR 0x0A] @ '' Provide one of the valid parameters''
                                       @ [CHR 0x0A] @ d)), w3)"
    by (simp add: r reraise_def)
  have 2: "(\<forall>msg. e \<noteq> TypeError msg) \<longrightarrow> u_run_step x step_name params suffix w = (Some e, w3)"
    by (cases e) (simp_all add: r reraise_def)
  have 3: "\<forall>msg. e = TypeError msg \<and> \<not> str_contains msg ''run() got an unexpected keyword argument''
           \<longrightarrow> u_run_step x step_name params suffix w = (Some e, w3)"
    by (simp add: r reraise_def)
  from 1 2 3 str_contains_iff show ?thesis by blast
qed

theorem entry_failure_reraised_witness:
  "fst (persist_params ''gen_prob_maps'' [(''n_threads'', JNum 4)] [] world0) = None
   \<and> fst (u_run_step (ext_raise unexpected_kwarg) ''gen_prob_maps'' [(''n_threads'', JNum 4)] [] world0)
       = Some (TypeError (''run() got an unexpected keyword argument 'foo'' @ [CHR 0x27, CHR 0x0A]
            @ '' Provide one of the valid parameters'' @ [CHR 0x0A] @ ''n_threads, verbose''))
   \<and> fst (u_run_step (ext_raise (KeyError ''patient'')) ''gen_prob_maps'' [(''n_threads'', JNum 4)] [] world0)
       = Some (KeyError ''patient'')
   \<and> fst (u_run_step (ext_raise (TypeError ''unhashable type'')) ''gen_prob_maps''
            [(''n_threads'', JNum 4)] [] world0)
       = Some (TypeError ''unhashable type'')"
proof -
  let ?p = "[(''n_threads'', JNum 4)]"
  let ?w2 = "snd (persist_params ''gen_prob_maps'' ?p [] world0)"
  have e: "persist_params ''gen_prob_maps'' ?p [] world0 = (None, ?w2)"
    using persist_world0 by (metis prod.collapse)
  have n: "str_contains (''run() got an unexpected keyword argument 'foo'' @ [CHR 0x27])
             ''run() got an unexpected keyword argument''"
    by simp
  from entry_failure_reraised [OF e ext_raise_fields(1) ext_raise_fields(2), of unexpected_kwarg] n
  have a: "fst (u_run_step (ext_raise unexpected_kwarg) ''gen_prob_maps'' ?p [] world0)
       = Some (TypeError (''run() got an unexpected keyword argument 'foo'' @ [CHR 0x27] @ [CHR 0x0A]
            @ '' Provide one of the valid parameters'' @ [CHR 0x0A] @ ''n_threads, verbose''))"
    by (simp add: unexpected_kwarg_def ext_raise_fields(3))
  from entry_failure_reraised [OF e ext_raise_fields(1) ext_raise_fields(2), of "KeyError ''patient''"]
  have b: "fst (u_run_step (ext_raise (KeyError ''patient'')) ''gen_prob_maps'' ?p [] world0)
       = Some (KeyError ''patient'')"
    by simp
  have n': "\<not> str_contains ''unhashable type'' ''run() got an unexpected keyword argument''"
    by simp
  from entry_failure_reraised [OF e ext_raise_fields(1) ext_raise_fields(2), of "TypeError ''unhashable type''"] n'
  have c: "fst (u_run_step (ext_raise (TypeError ''unhashable type'')) ''gen_prob_maps'' ?p [] world0)
       = Some (TypeError ''unhashable type'')"
    by simp
  from a b c persist_world0 show ?thesis by simp
qed

lemma ext_nodoc_fields:
  "import_module (ext_nodoc e) n = Some (mod_nodoc e)"
  "run_entry (mod_nodoc e) p w = (Some e, w)"
  "run_doc (mod_nodoc e) = None"
  by (simp_all add: ext_nodoc_def mod_nodoc_def)

text \<open>
  The statement of the spec fails in two ways. The entry point of a step whose \<^verbatim>\<open>run\<close>
  has no docstring is called with the unknown parameter \<^verbatim>\<open>foo\<close>: the executor raises
  the \<^verbatim>\<open>TypeError\<close> of adding \<^verbatim>\<open>None\<close> to a string, whose message holds neither the
  entry point's message nor any parameter. And a step whose parameters are all known
  calls a method \<^verbatim>\<open>Model.run\<close> with an unknown parameter: this other exception is not
  raised as it is, the executor adds the line and the docstring to it.
\<close>

theorem entry_failure_not_as_stated:
  "fst (u_run_step (ext_nodoc unexpected_kwarg) ''gen_prob_maps'' [(''n_threads'', JNum 4)] [] world0)
       = Some (TypeError ''can only concatenate str (not \"NoneType\") to str'')
   \<and> fst (u_run_step (ext_raise nested_kwarg) ''gen_prob_maps'' [(''n_threads'', JNum 4)] [] world0)
       = Some (TypeError (''Model.run() got an unexpected keyword argument 'x'' @ [CHR 0x27, CHR 0x0A]
            @ '' Provide one of the valid parameters'' @ [CHR 0x0A] @ ''n_threads, verbose''))
   \<and> fst (u_run_step (ext_raise nested_kwarg) ''gen_prob_maps'' [(''n_threads'', JNum 4)] [] world0)
       \<noteq> Some nested_kwarg"
proof -
  let ?p = "[(''n_threads'', JNum 4)]"
  let ?w2 = "snd (persist_params ''gen_prob_maps'' ?p [] world0)"
  have e: "persist_params ''gen_prob_maps'' ?p [] world0 = (None, ?w2)"
    using persist_world0 by (metis prod.collapse)
  have a: "fst (u_run_step (ext_nodoc unexpected_kwarg) ''gen_prob_maps'' ?p [] world0)
       = Some (TypeError ''can only concatenate str (not \"NoneType\") to str'')"
    by (simp add: run_step_entry_raises [OF e ext_nodoc_fields(1) ext_nodoc_fields(2)]
        ext_nodoc_fields(3) reraise_def unexpected_kwarg_def concat_none_def)
  have b: "fst (u_run_step (ext_raise nested_kwarg) ''gen_prob_maps'' ?p [] world0)
       = Some (TypeError (''Model.run() got an unexpected keyword argument 'x'' @ [CHR 0x27, CHR 0x0A]
            @ '' Provide one of the valid parameters'' @ [CHR 0x0A] @ ''n_threads, verbose''))"
    by (simp add: run_step_entry_raises [OF e ext_raise_fields(1) ext_raise_fields(2)]
        ext_raise_fields(3) reraise_def nested_kwarg_def)
  from a b show ?thesis by (simp add: nested_kwarg_def)
qed

section \<open>Step directory suffix: properties\<close>

lemma init_step_state:
  assumes "n \<in> snd ` set avail_steps"
  shows "\<exists>k. fst (snd (u_init_step n mode x w))
     = (fst w)\<lparr>uu_step := Some k, uu_step_name := Some n,
               uu_step_dir_suffix := x @ uu_step_dir_suffix (fst w)\<rparr>"
proof (cases "filter (\<lambda>kv. snd kv = n) avail_steps")
  case Nil
  with assms show ?thesis by (auto simp: filter_empty_conv)
next
  case (Cons kv rest)
  then have "fst (snd (u_init_step n mode x w))
     = (fst w)\<lparr>uu_step := Some (fst kv), uu_step_name := Some n,
               uu_step_dir_suffix := x @ uu_step_dir_suffix (fst w)\<rparr>"
    by (simp add: u_init_step_def Let_def split: sum.split)
  then show ?thesis by blast
qed

lemma init_step_suffix:
  "uu_step_dir_suffix (fst (snd (u_init_step n mode x w)))
     = (if n \<in> snd ` set avail_steps then x @ uu_step_dir_suffix (fst w) else uu_step_dir_suffix (fst w))"
proof (cases "filter (\<lambda>kv. snd kv = n) avail_steps")
  case Nil
  then have "n \<notin> snd ` set avail_steps"
    by (auto simp: filter_empty_conv)
  with Nil show ?thesis by (simp add: u_init_step_def Let_def)
next
  case (Cons kv rest)
  then have "kv \<in> set (filter (\<lambda>kv. snd kv = n) avail_steps)" by simp
  then have "n \<in> snd ` set avail_steps" by force
  with Cons show ?thesis
    by (simp add: u_init_step_def Let_def split: sum.split)
qed

lemma select_run_suffix:
  "uu_step_dir_suffix (snd (select_run run descr fname w)) = uu_step_dir_suffix (fst w)"
  by (simp add: select_run_def Let_def split: sum.split option.split)

lemma init_run_suffix:
  "uu_step_dir_suffix (fst (snd (u_init_run now run descr i w))) = uu_step_dir_suffix (fst w)"
proof -
  obtain r s1 where sel: "select_run run descr (projr (runs_filename (fst w))) w = (r, s1)"
    by (cases "select_run run descr (projr (runs_filename (fst w))) w") auto
  then have s1: "uu_step_dir_suffix s1 = uu_step_dir_suffix (fst w)"
    using select_run_suffix [of run descr "projr (runs_filename (fst w))" w] by simp
  show ?thesis
  proof (cases "runs_filename (fst w)")
    case (Inl e)
    then show ?thesis by (simp add: u_init_run_def)
  next
    case (Inr fname)
    with sel have sel': "select_run run descr fname w = (r, s1)" by simp
    show ?thesis
    proof (cases r)
      case (Inl e)
      with Inr sel' s1 show ?thesis by (simp add: u_init_run_def)
    next
      case (Inr rd)
      obtain r1 d1 where rd: "rd = (r1, d1)" by (cases rd) auto
      from \<open>runs_filename (fst w) = Inr fname\<close> sel' Inr rd s1 show ?thesis
        by (simp add: u_init_run_def Let_def split: sum.split option.split)
    qed
  qed
qed

lemma py_index_simps:
  "py_index f 0 = (if f = [] then Inl (IndexError ''list index out of range'') else Inr (f ! 0))"
  "py_index f 1 = (if length f < 2 then Inl (IndexError ''list index out of range'') else Inr (f ! 1))"
  "py_index f (- 1) = (if f = [] then Inl (IndexError ''list index out of range'') else Inr (last f))"
    apply (simp add: py_index_def)
   apply (auto simp: py_index_def)[1]
  apply (auto simp: py_index_def Let_def last_conv_nth nat_diff_distrib')
  done

lemma init_patients_suffix:
  "uu_step_dir_suffix (snd (u_init_patients (Inr ps) n single ft s))
     = (if n > 0 \<or> single \<noteq> None then []
        else case ft of
               None \<Rightarrow> []
             | Some f \<Rightarrow> if 2 \<le> length f then ''_fromto'' @ str_int (f ! 0) @ ''-'' @ str_int (f ! 1) else [])"
proof (cases "n > 0 \<or> single \<noteq> None")
  case True
  then show ?thesis by (auto simp: u_init_patients_def Let_def)
next
  case False
  show ?thesis
  proof (cases ft)
    case None
    with False show ?thesis by (simp add: u_init_patients_def Let_def)
  next
    case (Some f)
    with False show ?thesis
      by (cases "f = []") (auto simp: u_init_patients_def Let_def py_index_simps)
  qed
qed

text \<open>
  C9. \<^verbatim>\<open>_init_step\<close> with suffix \<open>x\<close>, for a step of the catalogue, sets the suffix of
  the step directory to \<open>x\<close> followed by the suffix it finds, so two initializations in
  a row leave the second suffix, the first suffix and the old one, and the step directory
  after an initialization is built from the suffix passed and the one found.
  \<^verbatim>\<open>_init_patients\<close>, once the patients are read, leaves the empty suffix, or
  \<^verbatim>\<open>_fromto\<close> with the first two numbers of the range when it returns from the branch
  of \<^verbatim>\<open>fromto_patients\<close>. \<^verbatim>\<open>_init_run\<close> leaves the suffix as it is; the resolver and
  the structured store do not assign any global.
\<close>

theorem suffix_accumulates:
  "uu_step_dir_suffix (fst (snd (u_init_step n mode x w)))
      = (if n \<in> snd ` set avail_steps then x @ uu_step_dir_suffix (fst w) else uu_step_dir_suffix (fst w))
   \<and> (n \<in> snd ` set avail_steps \<and> n' \<in> snd ` set avail_steps
        \<longrightarrow> uu_step_dir_suffix (fst (snd (u_init_step n' mode' x' (snd (u_init_step n mode x w)))))
            = x' @ x @ uu_step_dir_suffix (fst w))
   \<and> (n \<in> snd ` set avail_steps \<and> write_basedir (fst w) = Some b \<and> dataset_name (fst w) = Some d
        \<longrightarrow> get_step_dir (fst (snd (u_init_step n mode x w))) None None
            = Inr (b @ d @ ''_'' @ str_int (uu_run (fst w)) @ ''/'' @ n @ x @ uu_step_dir_suffix (fst w) @ ''/''))
   \<and> uu_step_dir_suffix (snd (u_init_patients (Inr ps) k single ft s))
      = (if k > 0 \<or> single \<noteq> None then []
         else case ft of
                None \<Rightarrow> []
              | Some f \<Rightarrow> if 2 \<le> length f then ''_fromto'' @ str_int (f ! 0) @ ''-'' @ str_int (f ! 1) else [])
   \<and> uu_step_dir_suffix (fst (snd (u_init_run now run descr i w))) = uu_step_dir_suffix (fst w)"
proof (intro conjI impI)
  show "uu_step_dir_suffix (fst (snd (u_init_step n mode x w)))
      = (if n \<in> snd ` set avail_steps then x @ uu_step_dir_suffix (fst w) else uu_step_dir_suffix (fst w))"
    by (rule init_step_suffix)
next
  assume "n \<in> snd ` set avail_steps \<and> n' \<in> snd ` set avail_steps"
  then show "uu_step_dir_suffix (fst (snd (u_init_step n' mode' x' (snd (u_init_step n mode x w)))))
            = x' @ x @ uu_step_dir_suffix (fst w)"
    by (simp add: init_step_suffix)
next
  assume a: "n \<in> snd ` set avail_steps \<and> write_basedir (fst w) = Some b \<and> dataset_name (fst w) = Some d"
  then obtain k where "fst (snd (u_init_step n mode x w))
     = (fst w)\<lparr>uu_step := Some k, uu_step_name := Some n,
               uu_step_dir_suffix := x @ uu_step_dir_suffix (fst w)\<rparr>"
    using init_step_state by blast
  with a show "get_step_dir (fst (snd (u_init_step n mode x w))) None None
            = Inr (b @ d @ ''_'' @ str_int (uu_run (fst w)) @ ''/'' @ n @ x @ uu_step_dir_suffix (fst w) @ ''/'')"
    by (simp add: get_step_dir_def get_write_dir_def)
next
  show "uu_step_dir_suffix (snd (u_init_patients (Inr ps) k single ft s))
      = (if k > 0 \<or> single \<noteq> None then []
         else case ft of
                None \<Rightarrow> []
              | Some f \<Rightarrow> if 2 \<le> length f then ''_fromto'' @ str_int (f ! 0) @ ''-'' @ str_int (f ! 1) else [])"
    by (rule init_patients_suffix)
next
  show "uu_step_dir_suffix (fst (snd (u_init_run now run descr i w))) = uu_step_dir_suffix (fst w)"
    by (rule init_run_suffix)
qed

lemma world0_fields:
  "write_basedir (fst world0) = Some ''/data/''" "dataset_name (fst world0) = Some ''dsb3''"
  "uu_step_dir_suffix (fst world0) = []" "uu_run (fst world0) = 0"
  by (simp_all add: world0_def conf0_def module_init_def)

theorem suffix_accumulates_witness:
  "''gen_candidates'' \<in> snd ` set avail_steps
   \<and> get_step_dir (fst (snd (u_init_step ''gen_candidates'' ''w'' ''_b'' world0))) None None
       = Inr ''/data/dsb3_0/gen_candidates_b/''
   \<and> get_step_dir (fst (snd (u_init_step ''gen_candidates'' ''w'' ''_b''
         (snd (u_init_step ''gen_candidates'' ''w'' ''_a'' world0))))) None None
       = Inr ''/data/dsb3_0/gen_candidates_b_a/''
   \<and> uu_step_dir_suffix (snd (u_init_patients (Inr [''p0'', ''p1'', ''p2'']) 0 None (Some [0, 2])
         (fst (snd (u_init_step ''gen_candidates'' ''w'' ''_a'' world0))))) = ''_fromto0-2''"
proof -
  let ?w1 = "snd (u_init_step ''gen_candidates'' ''w'' ''_a'' world0)"
  have c: "''gen_candidates'' \<in> snd ` set avail_steps"
    by (simp add: avail_steps_def)
  have s1: "uu_step_dir_suffix (fst ?w1) = ''_a''"
    using suffix_accumulates [of "''gen_candidates''" "''w''" "''_a''" world0] c
    by (simp add: world0_fields)
  obtain k where st: "fst ?w1 = (fst world0)\<lparr>uu_step := Some k, uu_step_name := Some ''gen_candidates'',
               uu_step_dir_suffix := ''_a'' @ uu_step_dir_suffix (fst world0)\<rparr>"
    using init_step_state [OF c] by blast
  have f1: "write_basedir (fst ?w1) = Some ''/data/''" "dataset_name (fst ?w1) = Some ''dsb3''"
    "uu_run (fst ?w1) = 0"
    by (simp_all add: st world0_fields)
  have a: "get_step_dir (fst (snd (u_init_step ''gen_candidates'' ''w'' ''_b'' world0))) None None
       = Inr ''/data/dsb3_0/gen_candidates_b/''"
    using suffix_accumulates [of "''gen_candidates''" "''w''" "''_b''" world0 _ _ _ "''/data/''" "''dsb3''"] c
    by (simp add: world0_fields str_int_small)
  have b: "get_step_dir (fst (snd (u_init_step ''gen_candidates'' ''w'' ''_b'' ?w1))) None None
       = Inr ''/data/dsb3_0/gen_candidates_b_a/''"
    using suffix_accumulates [of "''gen_candidates''" "''w''" "''_b''" ?w1 _ _ _ "''/data/''" "''dsb3''"] c
    by (simp add: f1 s1 str_int_small)
  have p: "uu_step_dir_suffix (snd (u_init_patients (Inr [''p0'', ''p1'', ''p2'']) 0 None (Some [0, 2]) (fst ?w1)))
       = ''_fromto0-2''"
    using suffix_accumulates [of _ _ _ _ _ _ _ _ _ "[''p0'', ''p1'', ''p2'']" 0 None "Some [0, 2]" "fst ?w1"]
    by (simp add: str_int_small)
  from c a b p show ?thesis by simp
qed

section \<open>Structured store: properties\<close>

lemma keys_set_item: "fst ` set (set_item d k v) = insert k (fst ` set d)"
  by (induction d k v rule: set_item.induct) auto

lemma keys_update_dict: "fst ` set (update_dict a e) = fst ` set a \<union> fst ` set e"
  unfolding update_dict_def
  by (induction e arbitrary: a) (auto simp: keys_set_item)

lemma map_of_update_dict: "map_of (update_dict a e) = map_of a ++ map_of (rev e)"
  unfolding update_dict_def
proof (induction e arbitrary: a)
  case Nil
  then show ?case by simp
next
  case (Cons kv e)
  show ?case
    by (simp add: Cons.IH map_of_set_item) (cases kv, simp add: map_add_upd_left fun_eq_iff map_add_def split: option.splits)
qed

lemma map_of_rev_distinct: "distinct (map fst e) \<Longrightarrow> map_of (rev e) = map_of e"
  by (simp add: distinct_map inj_on_def map_of_inject_set distinct_rev)

lemma dirname_in_dir: "CHR ''/'' \<notin> set name \<Longrightarrow> dirname (dir @ ''/'' @ name) = dir @ ''/''"
  by (auto simp: dirname_def dropWhile_append3 dropWhile_append1)

lemma cur_dir:
  assumes "write_basedir s = Some b" and "dataset_name s = Some d"
  shows "get_step_dir s (Some n) None
           = Inr (b @ d @ ''_'' @ str_int (uu_run s) @ ''/'' @ n @ uu_step_dir_suffix s @ ''/'')"
    and "get_step_dir s (Some n) (Some (uu_run s))
           = Inr (b @ d @ ''_'' @ str_int (uu_run s) @ ''/'' @ n @ uu_step_dir_suffix s @ ''/'')"
  using assms by (simp_all add: get_step_dir_def get_write_dir_def)

lemma resolve_current:
  assumes "write_basedir s = Some b" and "dataset_name s = Some d"
    and "path_exists fs (b @ d @ ''_'' @ str_int (uu_run s) @ ''/'' @ n @ uu_step_dir_suffix s @ ''/'')"
  shows "u_get_step_dir_for_load fs s (Some n)
           = Inr (b @ d @ ''_'' @ str_int (uu_run s) @ ''/'' @ n @ uu_step_dir_suffix s @ ''/'')"
  using assms(3) by (simp add: u_get_step_dir_for_load_def trial_runs_def cur_dir(2) [OF assms(1,2)])

text \<open>
  C5. Take a configured pipeline, a step whose directory in the current run exists, and a
  record name without \<^verbatim>\<open>/\<close> under which the directory holds no file or a record
  \<open>old\<close>. Saving \<open>d1\<close> and then \<open>d2\<close> in mode \<^verbatim>\<open>a\<close> succeeds twice and leaves, in
  the current step directory, \<open>d2\<close> merged into what the first save stored (\<open>d1\<close>, or
  \<open>d1\<close> merged into \<open>old\<close>). The keys of the result are those stored first together
  with those of \<open>d2\<close>, so they include the keys of both records; a key of \<open>d2\<close> has the
  value \<open>d2\<close> gives it, every other key the value stored first. The result is a function
  of the file in the current step directory and of the two records only: no other run's
  directory is read, although the load goes through the lineage resolver, because a file
  that exists lies in an existing directory and the current run comes first in the chain.
\<close>

theorem save_json_merge:
  fixes s :: pstate and fs :: fsys and n b d basename :: string and d1 d2 old :: jdict
  defines "fname \<equiv> b @ d @ ''_'' @ str_int (uu_run s) @ ''/'' @ n @ uu_step_dir_suffix s @ ''/'' @ basename"
  defines "stored1 \<equiv> (if fs fname = None then d1 else update_dict old d1)"
  assumes "write_basedir s = Some b" and "dataset_name s = Some d"
    and "path_exists fs (b @ d @ ''_'' @ str_int (uu_run s) @ ''/'' @ n @ uu_step_dir_suffix s @ ''/'')"
    and "fs fname = None \<or> fs fname = Some (JsonFile old)"
    and "CHR ''/'' \<notin> set basename"
    and "distinct (map fst d2)"
  shows "save_json basename d1 (Some n) ''a'' (s, fs) = Inr (fs(fname \<mapsto> JsonFile stored1))
    \<and> save_json basename d2 (Some n) ''a'' (s, fs(fname \<mapsto> JsonFile stored1))
        = Inr (fs(fname \<mapsto> JsonFile (update_dict stored1 d2)))
    \<and> fst ` set (update_dict stored1 d2) = fst ` set stored1 \<union> fst ` set d2
    \<and> fst ` set d1 \<union> fst ` set d2 \<subseteq> fst ` set (update_dict stored1 d2)
    \<and> (\<forall>k \<in> fst ` set d2. map_of (update_dict stored1 d2) k = map_of d2 k)
    \<and> (\<forall>k. k \<notin> fst ` set d2 \<longrightarrow> map_of (update_dict stored1 d2) k = map_of stored1 k)"
proof -
  define cur where "cur = b @ d @ ''_'' @ str_int (uu_run s) @ ''/'' @ n @ uu_step_dir_suffix s @ ''/''"
  have fl: "fname = cur @ basename" by (simp add: fname_def cur_def)
  have ex: "path_exists fs cur" using assms(5) by (simp add: cur_def)
  have dn: "dirname (cur @ basename) = cur"
    using dirname_in_dir [OF assms(7), of "b @ d @ ''_'' @ str_int (uu_run s) @ ''/'' @ n @ uu_step_dir_suffix s"]
    by (simp add: cur_def)
  have g: "get_step_dir s (Some n) None = Inr cur"
    unfolding cur_def by (rule cur_dir(1) [OF assms(3,4)])
  have res: "u_get_step_dir_for_load fs' s (Some n) = Inr cur" if "path_exists fs' cur" for fs'
    using that unfolding cur_def by (rule resolve_current [OF assms(3,4)])
  have w: "open_w fs' (cur @ basename) c = Inr (fs'(cur @ basename \<mapsto> c))"
    if "path_exists fs' cur" and "fs' (cur @ basename) \<noteq> Some Dir" for fs' c
    using that by (simp add: open_w_def dn)
  have nd: "fs (cur @ basename) \<noteq> Some Dir" using assms(6) by (auto simp: fl)
  have first: "save_json basename d1 (Some n) ''a'' (s, fs) = Inr (fs(fname \<mapsto> JsonFile stored1))"
  proof (cases "fs (cur @ basename) = None")
    case True
    then show ?thesis
      using w [OF ex nd] by (simp add: save_json_def g Let_def fl path_exists_def stored1_def)
  next
    case False
    with assms(6) have o: "fs (cur @ basename) = Some (JsonFile old)" by (simp add: fl)
    have "load_json fs s basename (Some n) = Inr old"
      using o by (simp add: load_json_def res [OF ex] json_load_def open_r_def)
    with False o show ?thesis
      using w [OF ex nd] by (simp add: save_json_def g Let_def fl path_exists_def stored1_def)
  qed
  let ?fs1 = "fs(cur @ basename \<mapsto> JsonFile stored1)"
  have e1: "path_exists ?fs1 cur" using ex by (simp add: path_exists_def)
  have "load_json ?fs1 s basename (Some n) = Inr stored1"
    by (simp add: load_json_def res [OF e1] json_load_def open_r_def)
  then have second: "save_json basename d2 (Some n) ''a'' (s, fs(fname \<mapsto> JsonFile stored1))
      = Inr (fs(fname \<mapsto> JsonFile (update_dict stored1 d2)))"
    using w [OF e1, of "JsonFile (update_dict stored1 d2)"]
    by (simp add: save_json_def g Let_def fl path_exists_def)
  have k1: "fst ` set (update_dict stored1 d2) = fst ` set stored1 \<union> fst ` set d2"
    by (rule keys_update_dict)
  have "fst ` set d1 \<subseteq> fst ` set stored1"
    by (auto simp: stored1_def keys_update_dict)
  with k1 have k2: "fst ` set d1 \<union> fst ` set d2 \<subseteq> fst ` set (update_dict stored1 d2)" by auto
  have m: "map_of (update_dict stored1 d2) = map_of stored1 ++ map_of d2"
    by (simp add: map_of_update_dict map_of_rev_distinct [OF assms(8)])
  have v1: "\<forall>k \<in> fst ` set d2. map_of (update_dict stored1 d2) k = map_of d2 k"
    by (auto simp: m map_add_def dom_map_of_conv_image_fst [symmetric] split: option.splits)
  have v2: "\<forall>k. k \<notin> fst ` set d2 \<longrightarrow> map_of (update_dict stored1 d2) k = map_of stored1 k"
    by (auto simp: m map_add_def map_of_eq_None_iff [symmetric] split: option.splits)
  from first second k1 k2 v1 v2 show ?thesis by blast
qed

lemma conf1_fields:
  "write_basedir conf1 = Some ''/data/''" "dataset_name conf1 = Some ''dsb3''"
  "uu_step_dir_suffix conf1 = []" "uu_run conf1 = 1" "uu_init_run conf1 = 0"
  by (simp_all add: conf1_def conf0_def module_init_def)

theorem save_json_merge_witness:
  "path_exists fs_lineage ''/data/dsb3_1/gen_prob_maps/''
   \<and> fs_lineage ''/data/dsb3_1/gen_prob_maps/out.json'' = None
   \<and> fs_lineage ''/data/dsb3_0/gen_prob_maps/out.json'' = Some (JsonFile [(''x'', JNum 9)])
   \<and> save_json ''out.json'' [(''a'', JNum 1), (''b'', JNum 2)] (Some ''gen_prob_maps'') ''a'' (conf1, fs_lineage)
       = Inr (fs_lineage(''/data/dsb3_1/gen_prob_maps/out.json'' \<mapsto> JsonFile [(''a'', JNum 1), (''b'', JNum 2)]))
   \<and> save_json ''out.json'' [(''b'', JNum 3), (''c'', JNum 4)] (Some ''gen_prob_maps'') ''a''
         (conf1, fs_lineage(''/data/dsb3_1/gen_prob_maps/out.json'' \<mapsto> JsonFile [(''a'', JNum 1), (''b'', JNum 2)]))
       = Inr (fs_lineage(''/data/dsb3_1/gen_prob_maps/out.json'' \<mapsto>
                JsonFile [(''a'', JNum 1), (''b'', JNum 3), (''c'', JNum 4)]))"
proof -
  have h5: "path_exists fs_lineage (''/data/'' @ ''dsb3'' @ ''_'' @ str_int (uu_run conf1) @ ''/''
              @ ''gen_prob_maps'' @ uu_step_dir_suffix conf1 @ ''/'')"
    by (simp add: conf1_fields str_int_small fs_lineage_def fs_dirs_def path_exists_def)
  have h6: "fs_lineage (''/data/'' @ ''dsb3'' @ ''_'' @ str_int (uu_run conf1) @ ''/''
              @ ''gen_prob_maps'' @ uu_step_dir_suffix conf1 @ ''/'' @ ''out.json'') = None
          \<or> fs_lineage (''/data/'' @ ''dsb3'' @ ''_'' @ str_int (uu_run conf1) @ ''/''
              @ ''gen_prob_maps'' @ uu_step_dir_suffix conf1 @ ''/'' @ ''out.json'') = Some (JsonFile [])"
    by (simp add: conf1_fields str_int_small fs_lineage_def fs_dirs_def)
  have h7: "CHR ''/'' \<notin> set ''out.json''" by simp
  have h8: "distinct (map fst [(''b'', JNum 3), (''c'', JNum 4)])" by simp
  have l: "fs_lineage ''/data/dsb3_0/gen_prob_maps/out.json'' = Some (JsonFile [(''x'', JNum 9)])"
    by (simp add: fs_lineage_def)
  have n0: "fs_lineage ''/data/dsb3_1/gen_prob_maps/out.json'' = None"
    by (simp add: fs_lineage_def fs_dirs_def)
  have ex: "path_exists fs_lineage ''/data/dsb3_1/gen_prob_maps/''"
    by (simp add: fs_lineage_def fs_dirs_def path_exists_def)
  from save_json_merge [OF conf1_fields(1,2) h5 h6 h7 h8, of "[(''a'', JNum 1), (''b'', JNum 2)]"]
  have "save_json ''out.json'' [(''a'', JNum 1), (''b'', JNum 2)] (Some ''gen_prob_maps'') ''a'' (conf1, fs_lineage)
       = Inr (fs_lineage(''/data/dsb3_1/gen_prob_maps/out.json'' \<mapsto> JsonFile [(''a'', JNum 1), (''b'', JNum 2)]))
   \<and> save_json ''out.json'' [(''b'', JNum 3), (''c'', JNum 4)] (Some ''gen_prob_maps'') ''a''
         (conf1, fs_lineage(''/data/dsb3_1/gen_prob_maps/out.json'' \<mapsto> JsonFile [(''a'', JNum 1), (''b'', JNum 2)]))
       = Inr (fs_lineage(''/data/dsb3_1/gen_prob_maps/out.json'' \<mapsto>
                JsonFile [(''a'', JNum 1), (''b'', JNum 3), (''c'', JNum 4)]))"
    by (simp add: conf1_fields str_int_small update_dict_def n0)
  with n0 ex l show ?thesis by simp
qed

end
